theory Spec2Isabelle
  imports Complex_Main
begin

section \<open>The batch planner of the \<open>POST /extract\<close> handler\<close>

text \<open>
  \<^verbatim>\<open>const BATCH_SIZE = 6;\<close> (mini.js, line 177).
\<close>

definition BATCH_SIZE :: nat where
  "BATCH_SIZE = 6"

text \<open>
  \<^verbatim>\<open>pages.slice(start, stop)\<close> for indices \<open>0 \<le> start \<le> stop\<close>, the only way the
  handler calls it: the elements at positions \<open>start, ..., stop - 1\<close> that exist.
\<close>

definition slice :: "'a list \<Rightarrow> nat \<Rightarrow> nat \<Rightarrow> 'a list" where
  "slice xs start stop = take (stop - start) (drop start xs)"

text \<open>
  The loop of lines 178 to 181, with the loop variable \<open>i\<close> and the array
  \<open>batches\<close> as arguments:
  \<^verbatim>\<open>
  const batches = [];
  for (let i = 0; i < pages.length; i += BATCH_SIZE) {
    batches.push(pages.slice(i, i + BATCH_SIZE));
  }
  \<close>
\<close>

function batch_loop :: "'a list \<Rightarrow> nat \<Rightarrow> 'a list list \<Rightarrow> 'a list list" where
  "batch_loop pages i batches =
     (if i < length pages
      then batch_loop pages (i + BATCH_SIZE) (batches @ [slice pages i (i + BATCH_SIZE)])
      else batches)"
  by pat_completeness auto
termination
  by (relation "measure (\<lambda>(pages, i, batches). length pages - i)")
     (auto simp: BATCH_SIZE_def)

declare batch_loop.simps [simp del]

definition make_batches :: "'a list \<Rightarrow> 'a list list" where
  "make_batches pages = batch_loop pages 0 []"

section \<open>JavaScript values\<close>

text \<open>
  The values the handler passes around: what \<^verbatim>\<open>JSON.parse\<close> returns, what the schema
  validator accepts and returns, and \<^verbatim>\<open>undefined\<close>, the value of a property that an object
  does not have. An object is its list of properties in insertion order, each key once.
  Numbers are the finite ones (\<^verbatim>\<open>JSON.parse\<close> yields no NaN).
\<close>

datatype jsval =
    JUndefined
  | JNull
  | JBool bool
  | JNum rat
  | JStr string
  | JArr "jsval list"
  | JObj "(string \<times> jsval) list"

text \<open>
  Property access \<^verbatim>\<open>obj[key]\<close>. The handler reads properties of the validator's output
  and of the objects inside it only, which are objects; a value without the property
  gives \<^verbatim>\<open>undefined\<close>.
\<close>

fun get :: "jsval \<Rightarrow> string \<Rightarrow> jsval" where
  "get (JObj kvs) key = (case map_of kvs key of None \<Rightarrow> JUndefined | Some v \<Rightarrow> v)"
| "get _ key = JUndefined"

text \<open>\<^verbatim>\<open>key in obj\<close>.\<close>

fun has_key :: "jsval \<Rightarrow> string \<Rightarrow> bool" where
  "has_key (JObj kvs) key = (key \<in> fst ` set kvs)"
| "has_key _ key = False"

text \<open>\<^verbatim>\<open>x == null\<close>: true of \<^verbatim>\<open>null\<close> and of \<^verbatim>\<open>undefined\<close>, of nothing else.\<close>

definition eq_null :: "jsval \<Rightarrow> bool" where
  "eq_null v = (v = JNull \<or> v = JUndefined)"

section \<open>The schema validator\<close>

text \<open>
  The schema of lines 31 to 54 is built with the zod library, which is not part of the
  repository. The model below covers the five schema constructors the file uses, with
  the behaviour the library documents for them:
  \<^item> \<^verbatim>\<open>z.string()\<close> and \<^verbatim>\<open>z.number()\<close> accept a value of that type and nothing else;
  \<^item> \<^verbatim>\<open>.optional()\<close> accepts \<^verbatim>\<open>undefined\<close> in addition (and not \<^verbatim>\<open>null\<close>, which is
    what \<^verbatim>\<open>.nullable()\<close> would add);
  \<^item> \<^verbatim>\<open>z.array(s)\<close> accepts an array whose elements \<open>s\<close> accepts;
  \<^item> \<^verbatim>\<open>z.object(shape)\<close> accepts an object, validates the property of every key of the
    shape, and returns a new object with the keys of the shape only (unknown keys are
    stripped); a key of the shape is set in the output when its validated value is not
    \<^verbatim>\<open>undefined\<close> or the key is in the input.
  A failure is the list of all issues found, each with the path of the offending value.
\<close>

datatype schema =
    ZString
  | ZNumber
  | ZOptional schema
  | ZArray schema
  | ZObject "(string \<times> schema) list"

datatype parsed_type =
  TUndefined | TNull | TBoolean | TNumber | TString | TArray | TObject

fun getParsedType :: "jsval \<Rightarrow> parsed_type" where
  "getParsedType JUndefined = TUndefined"
| "getParsedType JNull = TNull"
| "getParsedType (JBool b) = TBoolean"
| "getParsedType (JNum n) = TNumber"
| "getParsedType (JStr s) = TString"
| "getParsedType (JArr xs) = TArray"
| "getParsedType (JObj kvs) = TObject"

datatype path_elem = Key string | Index nat

datatype issue =
  invalid_type (path: "path_elem list") (expected: parsed_type) (received: parsed_type)

text \<open>All the results are kept when every one is valid, all the issues otherwise.\<close>

fun merge_results :: "(issue list + 'a) list \<Rightarrow> issue list + 'a list" where
  "merge_results [] = Inr []"
| "merge_results (r # rs) =
     (case r of
        Inr v \<Rightarrow> (case merge_results rs of Inr vs \<Rightarrow> Inr (v # vs) | Inl es \<Rightarrow> Inl es)
      | Inl e \<Rightarrow> (case merge_results rs of Inr vs \<Rightarrow> Inl e | Inl es \<Rightarrow> Inl (e @ es)))"

text \<open>The output object: the keys of the shape, in its order, that are set.\<close>

fun final_object :: "jsval \<Rightarrow> string list \<Rightarrow> jsval list \<Rightarrow> (string \<times> jsval) list" where
  "final_object data (k # ks) (v # vs) =
     (if v \<noteq> JUndefined \<or> has_key data k
      then (k, v) # final_object data ks vs
      else final_object data ks vs)"
| "final_object data _ _ = []"

fun zparse :: "schema \<Rightarrow> path_elem list \<Rightarrow> jsval \<Rightarrow> issue list + jsval" where
  "zparse ZString p v =
     (if getParsedType v = TString then Inr v
      else Inl [invalid_type p TString (getParsedType v)])"
| "zparse ZNumber p v =
     (if getParsedType v = TNumber then Inr v
      else Inl [invalid_type p TNumber (getParsedType v)])"
| "zparse (ZOptional s) p v =
     (if getParsedType v = TUndefined then Inr JUndefined else zparse s p v)"
| "zparse (ZArray s) p v =
     (case v of
        JArr xs \<Rightarrow>
          (case merge_results (map (\<lambda>(i, x). zparse s (p @ [Index i]) x) (enumerate 0 xs)) of
             Inl es \<Rightarrow> Inl es
           | Inr vs \<Rightarrow> Inr (JArr vs))
      | _ \<Rightarrow> Inl [invalid_type p TArray (getParsedType v)])"
| "zparse (ZObject shape) p v =
     (case v of
        JObj kvs \<Rightarrow>
          (case merge_results (map (\<lambda>(k, s). zparse s (p @ [Key k]) (get v k)) shape) of
             Inl es \<Rightarrow> Inl es
           | Inr vs \<Rightarrow> Inr (JObj (final_object v (map fst shape) vs)))
      | _ \<Rightarrow> Inl [invalid_type p TObject (getParsedType v)])"

text \<open>
  \<^verbatim>\<open>schema.partial()\<close>, a method of object schemas: every key of the shape becomes
  optional.
\<close>

fun partial :: "schema \<Rightarrow> schema" where
  "partial (ZObject shape) = ZObject (map (\<lambda>(k, s). (k, ZOptional s)) shape)"
| "partial s = s"

text \<open>\<^verbatim>\<open>ExtractedDataSchema\<close>, lines 31 to 54.\<close>

definition ExtractedDataSchema :: schema where
  "ExtractedDataSchema = ZObject
     [(''documentType'', ZOptional ZString),
      (''invoiceNumber'', ZOptional ZString),
      (''date'', ZOptional ZString),
      (''vendor'', ZOptional ZString),
      (''buyer'', ZOptional ZString),
      (''total'', ZOptional ZString),
      (''currency'', ZOptional ZString),
      (''lineItems'', ZOptional (ZArray (ZObject
         [(''description'', ZOptional ZString),
          (''quantity'', ZOptional ZString),
          (''unitPrice'', ZOptional ZString),
          (''amount'', ZOptional ZString)]))),
      (''meta'', ZOptional (ZObject
         [(''pagesProcessed'', ZOptional ZNumber)]))]"

section \<open>Errors and responses\<close>

text \<open>
  What the \<^verbatim>\<open>try\<close> block of the handler can throw: an \<^verbatim>\<open>Error\<close> the handler makes
  itself, with its message; the \<^verbatim>\<open>SyntaxError\<close> of \<^verbatim>\<open>JSON.parse\<close>, whose message is the
  engine's; the \<^verbatim>\<open>ZodError\<close> of the validator, with its issues; and whatever the page
  renderer or the model client fails with.
\<close>

datatype error =
    Error string
  | SyntaxError
  | ZodError "issue list"
  | ExternalError string

text \<open>
  The three responses of the handler:
  \<^item> \<open>BadRequest msg\<close> is \<^verbatim>\<open>res.status(400).json({ error: msg })\<close> (line 169);
  \<^item> \<open>Success n final\<close> is \<^verbatim>\<open>res.json({ ok: true, pages: n, data: final })\<close>
    (lines 235 to 239);
  \<^item> \<open>Failure err\<close> is
    \<^verbatim>\<open>res.status(500).json({ ok: false, error: err?.message || 'Extraction failed' })\<close>
    of the \<^verbatim>\<open>catch\<close> branch (lines 242 to 245).
\<close>

datatype response =
    BadRequest string
  | Success nat jsval
  | Failure error

section \<open>Parsing the model's answer\<close>

text \<open>
  \<^verbatim>\<open>content.indexOf(c)\<close> and \<^verbatim>\<open>content.lastIndexOf(c)\<close> for a single character: the
  position of its first and of its last occurrence, \<open>-1\<close> when there is none.
\<close>

fun indexOf :: "string \<Rightarrow> char \<Rightarrow> int" where
  "indexOf [] c = -1"
| "indexOf (x # xs) c =
     (if x = c then 0 else if indexOf xs c = -1 then -1 else indexOf xs c + 1)"

definition lastIndexOf :: "string \<Rightarrow> char \<Rightarrow> int" where
  "lastIndexOf s c =
     (if indexOf (rev s) c = -1 then -1 else int (length s) - 1 - indexOf (rev s) c)"

text \<open>
  Lines 206 to 218. \<^verbatim>\<open>JSON.parse\<close> belongs to the host; it is the parameter
  \<open>json_parse\<close>, which returns \<open>None\<close> where \<^verbatim>\<open>JSON.parse\<close> throws its \<^verbatim>\<open>SyntaxError\<close>.
  The second call is not guarded: its error leaves the block as it is.
  \<^verbatim>\<open>
  let parsed;
  try {
    parsed = JSON.parse(content);
  } catch {
    const start = content.indexOf('{');
    const end = content.lastIndexOf('}');
    if (start !== -1 && end !== -1 && end > start) {
      parsed = JSON.parse(content.slice(start, end + 1));
    } else {
      throw new Error('Model did not return valid JSON.');
    }
  }
  \<close>
\<close>

definition parse_content :: "(string \<Rightarrow> jsval option) \<Rightarrow> string \<Rightarrow> error + jsval" where
  "parse_content json_parse content =
     (case json_parse content of
        Some parsed \<Rightarrow> Inr parsed
      | None \<Rightarrow>
          (let start = indexOf content (CHR ''{'');
               stop = lastIndexOf content (CHR ''}'')
           in if start \<noteq> -1 \<and> stop \<noteq> -1 \<and> stop > start
              then (case json_parse (slice content (nat start) (nat (stop + 1))) of
                      Some parsed \<Rightarrow> Inr parsed
                    | None \<Rightarrow> Inl SyntaxError)
              else Inl (Error ''Model did not return valid JSON.'')))"


section \<open>The merged record\<close>

text \<open>
  The object \<^verbatim>\<open>merged\<close> of lines 187 to 197. Its keys are fixed by the literal and the
  loop assigns to these keys only, so it is a record. The field \<^verbatim>\<open>total\<close> is
  \<open>total_field\<close> here. The counter holds sums of array lengths, which are natural
  numbers.
\<close>

record meta =
  pagesProcessed :: nat

record merged =
  documentType :: jsval
  invoiceNumber :: jsval
  date :: jsval
  vendor :: jsval
  buyer :: jsval
  total_field :: jsval
  currency :: jsval
  lineItems :: "jsval list"
  meta :: meta

definition initial_merged :: merged where
  "initial_merged =
     \<lparr> documentType = JNull,
       invoiceNumber = JNull,
       date = JNull,
       vendor = JNull,
       buyer = JNull,
       total_field = JNull,
       currency = JNull,
       lineItems = [],
       meta = \<lparr> pagesProcessed = 0 \<rparr> \<rparr>"

text \<open>The keys of the loop of line 223.\<close>

definition scalar_keys :: "string list" where
  "scalar_keys =
     [''documentType'', ''invoiceNumber'', ''date'', ''vendor'', ''buyer'', ''total'',
      ''currency'']"

text \<open>\<^verbatim>\<open>merged[key]\<close> and \<^verbatim>\<open>merged[key] = v\<close> for the keys of that loop.\<close>

definition merged_get :: "merged \<Rightarrow> string \<Rightarrow> jsval" where
  "merged_get m key =
     (if key = ''documentType'' then documentType m
      else if key = ''invoiceNumber'' then invoiceNumber m
      else if key = ''date'' then date m
      else if key = ''vendor'' then vendor m
      else if key = ''buyer'' then buyer m
      else if key = ''total'' then total_field m
      else if key = ''currency'' then currency m
      else JUndefined)"

definition merged_set :: "merged \<Rightarrow> string \<Rightarrow> jsval \<Rightarrow> merged" where
  "merged_set m key v =
     (if key = ''documentType'' then m\<lparr>documentType := v\<rparr>
      else if key = ''invoiceNumber'' then m\<lparr>invoiceNumber := v\<rparr>
      else if key = ''date'' then m\<lparr>date := v\<rparr>
      else if key = ''vendor'' then m\<lparr>vendor := v\<rparr>
      else if key = ''buyer'' then m\<lparr>buyer := v\<rparr>
      else if key = ''total'' then m\<lparr>total_field := v\<rparr>
      else if key = ''currency'' then m\<lparr>currency := v\<rparr>
      else m)"

text \<open>The object as the value that line 233 hands to the validator.\<close>

definition merged_value :: "merged \<Rightarrow> jsval" where
  "merged_value m = JObj
     [(''documentType'', documentType m),
      (''invoiceNumber'', invoiceNumber m),
      (''date'', date m),
      (''vendor'', vendor m),
      (''buyer'', buyer m),
      (''total'', total_field m),
      (''currency'', currency m),
      (''lineItems'', JArr (lineItems m)),
      (''meta'', JObj [(''pagesProcessed'', JNum (of_nat (pagesProcessed (meta m))))])]"

section \<open>The merge of one batch\<close>

text \<open>
  Line 224, the body of the loop over the keys:
  \<^verbatim>\<open>if (merged[key] == null && result[key] != null) merged[key] = result[key];\<close>
\<close>

definition merge_key :: "jsval \<Rightarrow> merged \<Rightarrow> string \<Rightarrow> merged" where
  "merge_key result m key =
     (if eq_null (merged_get m key) \<and> \<not> eq_null (get result key)
      then merged_set m key (get result key)
      else m)"

text \<open>
  Lines 223 to 229, for the validated \<open>result\<close> of a batch of \<open>n\<close> pages:
  \<^verbatim>\<open>
  for (const key of ['documentType', ..., 'currency']) { ... }
  if (Array.isArray(result.lineItems)) {
    merged.lineItems = [...merged.lineItems, ...result.lineItems];
  }
  merged.meta.pagesProcessed += batch.length;
  \<close>
\<close>

definition merge_batch :: "merged \<Rightarrow> jsval \<Rightarrow> nat \<Rightarrow> merged" where
  "merge_batch m result n =
     (let m1 = foldl (merge_key result) m scalar_keys;
          m2 = (case get result ''lineItems'' of
                  JArr items \<Rightarrow> m1\<lparr>lineItems := lineItems m1 @ items\<rparr>
                | _ \<Rightarrow> m1)
      in m2\<lparr>meta := (meta m2)\<lparr>pagesProcessed := pagesProcessed (meta m2) + n\<rparr>\<rparr>)"

section \<open>The handler\<close>

text \<open>
  Lines 200 to 220, one batch: the call of the model (\<^verbatim>\<open>callOllamaVision\<close>, whose
  request goes to another process, is the parameter \<open>vision\<close>; it gets the number of
  the batch and the number of batches, which the prompt names, and the images), the
  parse of its answer, and the validation against the partial schema.
\<close>

definition extract_batch ::
  "(string \<Rightarrow> jsval option) \<Rightarrow> (nat \<Rightarrow> nat \<Rightarrow> 'p list \<Rightarrow> error + string) \<Rightarrow>
   nat \<Rightarrow> nat \<Rightarrow> 'p list \<Rightarrow> error + jsval" where
  "extract_batch json_parse vision idx count batch =
     (case vision (idx + 1) count batch of
        Inl err \<Rightarrow> Inl err
      | Inr content \<Rightarrow>
          (case parse_content json_parse content of
             Inl err \<Rightarrow> Inl err
           | Inr parsed \<Rightarrow>
               (case zparse (partial ExtractedDataSchema) [] parsed of
                  Inl issues \<Rightarrow> Inl (ZodError issues)
                | Inr result \<Rightarrow> Inr result)))"

text \<open>
  The loop of lines 199 to 230 over \<^verbatim>\<open>batches.entries()\<close>, from the entry \<open>idx\<close> on,
  with \<^verbatim>\<open>merged\<close> as state. An error ends it.
\<close>

fun process_batches ::
  "(string \<Rightarrow> jsval option) \<Rightarrow> (nat \<Rightarrow> nat \<Rightarrow> 'p list \<Rightarrow> error + string) \<Rightarrow>
   nat \<Rightarrow> nat \<Rightarrow> 'p list list \<Rightarrow> merged \<Rightarrow> error + merged" where
  "process_batches json_parse vision count idx [] m = Inr m"
| "process_batches json_parse vision count idx (batch # rest) m =
     (case extract_batch json_parse vision idx count batch of
        Inl err \<Rightarrow> Inl err
      | Inr result \<Rightarrow>
          process_batches json_parse vision count (idx + 1) rest
            (merge_batch m result (length batch)))"

text \<open>
  The \<^verbatim>\<open>try\<close> block, lines 172 to 239, from the rendered pages on: the pair of
  \<^verbatim>\<open>pages.length\<close> and \<^verbatim>\<open>final\<close>, or the error thrown.
\<close>

definition extract_pages ::
  "(string \<Rightarrow> jsval option) \<Rightarrow> (nat \<Rightarrow> nat \<Rightarrow> 'p list \<Rightarrow> error + string) \<Rightarrow>
   'p list \<Rightarrow> error + nat \<times> jsval" where
  "extract_pages json_parse vision pages =
     (if length pages = 0 then Inl (Error ''Could not render any pages from PDF.'')
      else
        let batches = make_batches pages in
        (case process_batches json_parse vision (length batches) 0 batches initial_merged of
           Inl err \<Rightarrow> Inl err
         | Inr m \<Rightarrow>
             (case zparse ExtractedDataSchema [] (merged_value m) of
                Inl issues \<Rightarrow> Inl (ZodError issues)
              | Inr final \<Rightarrow> Inr (length pages, final))))"

text \<open>
  The handler, lines 167 to 254. \<open>file\<close> is \<^verbatim>\<open>req.file\<close>, absent when nothing was
  uploaded; \<open>render\<close> is \<^verbatim>\<open>pdfToBase64Pages\<close>, which runs the external renderer. The
  removal of the uploaded file in \<^verbatim>\<open>finally\<close> does not change the response.
\<close>

definition extract_handler ::
  "(string \<Rightarrow> jsval option) \<Rightarrow> ('f \<Rightarrow> error + 'p list) \<Rightarrow>
   (nat \<Rightarrow> nat \<Rightarrow> 'p list \<Rightarrow> error + string) \<Rightarrow> 'f option \<Rightarrow> response" where
  "extract_handler json_parse render vision file =
     (case file of
        None \<Rightarrow> BadRequest ''No PDF uploaded. Use form field \"file\".''
      | Some pdfFile \<Rightarrow>
          (case render pdfFile of
             Inl err \<Rightarrow> Failure err
           | Inr pages \<Rightarrow>
               (case extract_pages json_parse vision pages of
                  Inl err \<Rightarrow> Failure err
                | Inr (n, final) \<Rightarrow> Success n final)))"

section \<open>The loop on given results\<close>

text \<open>
  What the loop of lines 199 to 230 does to \<^verbatim>\<open>merged\<close> once the validated results of
  the batches are given, each with the number of pages of its batch: lines 223 to 229
  for one result after the other.
\<close>

definition merge_sequence :: "merged \<Rightarrow> (jsval \<times> nat) list \<Rightarrow> merged" where
  "merge_sequence m rs = foldl (\<lambda>m (result, n). merge_batch m result n) m rs"

text \<open>
  The validated results of the batches from the entry \<open>idx\<close> on, in order, when every
  batch gives one; the first error otherwise.
\<close>

fun candidates ::
  "(string \<Rightarrow> jsval option) \<Rightarrow> (nat \<Rightarrow> nat \<Rightarrow> 'p list \<Rightarrow> error + string) \<Rightarrow>
   nat \<Rightarrow> nat \<Rightarrow> 'p list list \<Rightarrow> error + jsval list" where
  "candidates json_parse vision count idx [] = Inr []"
| "candidates json_parse vision count idx (batch # rest) =
     (case extract_batch json_parse vision idx count batch of
        Inl err \<Rightarrow> Inl err
      | Inr result \<Rightarrow>
          (case candidates json_parse vision count (idx + 1) rest of
             Inl err \<Rightarrow> Inl err
           | Inr results \<Rightarrow> Inr (result # results)))"

text \<open>
  The value of \<open>key\<close> in the earliest of the results that has one that is not null,
  and null when none has.
\<close>

definition earliest_value :: "string \<Rightarrow> jsval list \<Rightarrow> jsval" where
  "earliest_value key results =
     (case find (\<lambda>result. \<not> eq_null (get result key)) results of
        None \<Rightarrow> JNull
      | Some result \<Rightarrow> get result key)"

text \<open>The line items of a result: those of its array \<^verbatim>\<open>lineItems\<close>, none without it.\<close>

definition line_items_of :: "jsval \<Rightarrow> jsval list" where
  "line_items_of result =
     (case get result ''lineItems'' of JArr items \<Rightarrow> items | _ \<Rightarrow> [])"

section \<open>The merge policy in the words of the specification\<close>

text \<open>
  Section 4.2 of the specification, steps 3 and 4e, and its design note on the fold.
  The initial record has every scalar field null, no line item and a zero counter. A
  candidate is folded in field by field: a scalar field takes the candidate's value
  when its own is null and the candidate's is not, and keeps its own otherwise; the
  candidate's line items, if any, are appended; the number of pages of the batch is
  added to the counter. A field is null when it holds null or is absent.
\<close>

definition spec_is_null :: "jsval \<Rightarrow> bool" where
  "spec_is_null v = (v = JNull \<or> v = JUndefined)"

definition spec_first_non_null :: "jsval \<Rightarrow> jsval \<Rightarrow> jsval" where
  "spec_first_non_null current candidate =
     (if spec_is_null current \<and> \<not> spec_is_null candidate then candidate else current)"

definition spec_line_items :: "jsval \<Rightarrow> jsval list" where
  "spec_line_items candidate =
     (case get candidate ''lineItems'' of JArr items \<Rightarrow> items | _ \<Rightarrow> [])"

definition spec_initial :: merged where
  "spec_initial =
     \<lparr> documentType = JNull, invoiceNumber = JNull, date = JNull, vendor = JNull,
       buyer = JNull, total_field = JNull, currency = JNull, lineItems = [],
       meta = \<lparr> pagesProcessed = 0 \<rparr> \<rparr>"

definition spec_merge :: "merged \<Rightarrow> jsval \<times> nat \<Rightarrow> merged" where
  "spec_merge m c =
     \<lparr> documentType = spec_first_non_null (documentType m) (get (fst c) ''documentType''),
       invoiceNumber = spec_first_non_null (invoiceNumber m) (get (fst c) ''invoiceNumber''),
       date = spec_first_non_null (date m) (get (fst c) ''date''),
       vendor = spec_first_non_null (vendor m) (get (fst c) ''vendor''),
       buyer = spec_first_non_null (buyer m) (get (fst c) ''buyer''),
       total_field = spec_first_non_null (total_field m) (get (fst c) ''total''),
       currency = spec_first_non_null (currency m) (get (fst c) ''currency''),
       lineItems = lineItems m @ spec_line_items (fst c),
       meta = \<lparr> pagesProcessed = pagesProcessed (meta m) + snd c \<rparr> \<rparr>"

section \<open>The keys of the schema\<close>

text \<open>The keys that \<^verbatim>\<open>ExtractedDataSchema\<close> declares, lines 32 to 49.\<close>

definition declared_keys :: "string list" where
  "declared_keys =
     [''documentType'', ''invoiceNumber'', ''date'', ''vendor'', ''buyer'', ''total'',
      ''currency'', ''lineItems'', ''meta'']"

text \<open>The keys that the schema declares for a line item, lines 42 to 45.\<close>

definition item_keys :: "string list" where
  "item_keys = [''description'', ''quantity'', ''unitPrice'', ''amount'']"

text \<open>
  A value has declared keys only, with respect to a schema, when every object in it that
  the schema describes has no key outside the shape given for it, at every level: the
  root object, the objects in an array, the object under a key.
\<close>

fun declared_only :: "schema \<Rightarrow> jsval \<Rightarrow> bool"
  and declared_field :: "(string \<times> schema) list \<Rightarrow> string \<Rightarrow> jsval \<Rightarrow> bool" where
  "declared_only (ZOptional s) v = declared_only s v"
| "declared_only (ZArray s) (JArr xs) = list_all (declared_only s) xs"
| "declared_only (ZObject shape) (JObj kvs) =
     list_all (\<lambda>(k, v). declared_field shape k v) kvs"
| "declared_only s v = True"
| "declared_field [] k v = False"
| "declared_field ((k', s) # shape) k v =
     (k' = k \<and> declared_only s v \<or> declared_field shape k v)"

text \<open>
  The value without the keys that the schema does not declare, at every level. A key of
  the shape stands once in it, as in the object literal that gives the shape.
\<close>

fun strip :: "schema \<Rightarrow> jsval \<Rightarrow> jsval"
  and strip_field :: "(string \<times> schema) list \<Rightarrow> string \<Rightarrow> jsval \<Rightarrow> jsval" where
  "strip (ZOptional s) v = strip s v"
| "strip (ZArray s) (JArr xs) = JArr (map (strip s) xs)"
| "strip (ZObject shape) (JObj kvs) =
     JObj (map (\<lambda>(k, v). (k, strip_field shape k v))
             (filter (\<lambda>(k, v). k \<in> fst ` set shape) kvs))"
| "strip s v = v"
| "strip_field [] k v = v"
| "strip_field ((k', s) # shape) k v = (if k' = k then strip s v else strip_field shape k v)"

text \<open>Every shape in the schema names each of its keys once.\<close>

fun distinct_keys :: "schema \<Rightarrow> bool"
  and distinct_fields :: "(string \<times> schema) list \<Rightarrow> bool" where
  "distinct_keys (ZOptional s) = distinct_keys s"
| "distinct_keys (ZArray s) = distinct_keys s"
| "distinct_keys (ZObject shape) = (distinct (map fst shape) \<and> distinct_fields shape)"
| "distinct_keys s = True"
| "distinct_fields [] = True"
| "distinct_fields ((k, s) # shape) = (distinct_keys s \<and> distinct_fields shape)"

section \<open>A sample request\<close>

text \<open>
  A request for the examples below. The renderer gives seven pages, so there are two
  batches. The model answers the first batch with a complete record of one line item, in
  which it reports 99 pages, and every other batch with another vendor, two line items
  and three keys that the schema does not declare: \<^verbatim>\<open>confidence\<close> in the record,
  \<^verbatim>\<open>sku\<close> in a line item and \<^verbatim>\<open>model\<close> under \<^verbatim>\<open>meta\<close>.
\<close>

definition first_answer :: string where
  "first_answer = ''{\"documentType\":\"invoice\",\"invoiceNumber\":\"INV-1\",\"date\":\"2024-01-31\",\"vendor\":\"Acme\",\"buyer\":\"Bob\",\"total\":\"100\",\"currency\":\"USD\",\"lineItems\":[{\"description\":\"a\"}],\"meta\":{\"pagesProcessed\":99}}''"

definition second_answer :: string where
  "second_answer = ''{\"vendor\":\"Other\",\"lineItems\":[{\"description\":\"b\",\"sku\":\"X-1\"},{\"description\":\"c\"}],\"meta\":{\"pagesProcessed\":1,\"model\":\"m\"},\"confidence\":1}''"

text \<open>The values of the two answers as JSON.\<close>

definition first_parsed :: jsval where
  "first_parsed = JObj
     [(''documentType'', JStr ''invoice''),
      (''invoiceNumber'', JStr ''INV-1''),
      (''date'', JStr ''2024-01-31''),
      (''vendor'', JStr ''Acme''),
      (''buyer'', JStr ''Bob''),
      (''total'', JStr ''100''),
      (''currency'', JStr ''USD''),
      (''lineItems'', JArr [JObj [(''description'', JStr ''a'')]]),
      (''meta'', JObj [(''pagesProcessed'', JNum 99)])]"

definition second_parsed :: jsval where
  "second_parsed = JObj
     [(''vendor'', JStr ''Other''),
      (''lineItems'', JArr
         [JObj [(''description'', JStr ''b''), (''sku'', JStr ''X-1'')],
          JObj [(''description'', JStr ''c'')]]),
      (''meta'', JObj [(''pagesProcessed'', JNum 1), (''model'', JStr ''m'')]),
      (''confidence'', JNum 1)]"

text \<open>
  \<^verbatim>\<open>JSON.parse\<close> on the texts of the examples: it has the value of each text among them
  that is JSON; the others (\<^verbatim>\<open>{x}\<close>, a sentence around an object, a sentence without
  braces) are not JSON.
\<close>

definition sample_json_parse :: "string \<Rightarrow> jsval option" where
  "sample_json_parse = map_of
     [(first_answer, first_parsed),
      (second_answer, second_parsed),
      (''{\"vendor\":\"Acme\"}'', JObj [(''vendor'', JStr ''Acme'')]),
      (''{\"vendor\":null}'', JObj [(''vendor'', JNull)]),
      (''{\"total\":\"100\"}'', JObj [(''total'', JStr ''100'')])]"

definition sample_vision :: "nat \<Rightarrow> nat \<Rightarrow> nat list \<Rightarrow> error + string" where
  "sample_vision number count batch =
     (if number = 1 then Inr first_answer else Inr second_answer)"

definition sample_render :: "unit \<Rightarrow> error + nat list" where
  "sample_render pdfFile = Inr [11, 12, 13, 14, 15, 16, 17]"

text \<open>A model that answers every batch with the same text.\<close>

definition constant_vision :: "string \<Rightarrow> nat \<Rightarrow> nat \<Rightarrow> nat list \<Rightarrow> error + string" where
  "constant_vision text number count batch = Inr text"

text \<open>
  What the sample request comes to: the validated result of the second batch, and the
  merged record after both batches.
\<close>

definition second_result :: jsval where
  "second_result = JObj
     [(''vendor'', JStr ''Other''),
      (''lineItems'', JArr
         [JObj [(''description'', JStr ''b'')], JObj [(''description'', JStr ''c'')]]),
      (''meta'', JObj [(''pagesProcessed'', JNum 1)])]"

definition sample_merged :: merged where
  "sample_merged =
     \<lparr> documentType = JStr ''invoice'', invoiceNumber = JStr ''INV-1'',
       date = JStr ''2024-01-31'', vendor = JStr ''Acme'', buyer = JStr ''Bob'',
       total_field = JStr ''100'', currency = JStr ''USD'',
       lineItems =
         [JObj [(''description'', JStr ''a'')], JObj [(''description'', JStr ''b'')],
          JObj [(''description'', JStr ''c'')]],
       meta = \<lparr> pagesProcessed = 7 \<rparr> \<rparr>"

section \<open>Properties of the batch planner\<close>

lemma batch_loop_concat:
  "concat (batch_loop pages i batches) = concat batches @ drop i pages"
proof (induction pages i batches rule: batch_loop.induct)
  case (1 pages i batches)
  show ?case
  proof (cases "i < length pages")
    case True
    have "take BATCH_SIZE (drop i pages) @ drop (i + BATCH_SIZE) pages = drop i pages"
      by (metis add.commute append_take_drop_id drop_drop)
    with True 1 show ?thesis
      by (subst batch_loop.simps) (simp add: slice_def)
  next
    case False
    then show ?thesis
      by (subst batch_loop.simps) simp
  qed
qed

lemma ceil_step:
  fixes m :: nat
  assumes "0 < m"
  shows "Suc ((m - 6 + 5) div 6) = (m + 5) div 6"
proof (cases "m \<le> 6")
  case True
  with assms have "(m + 5) div 6 = 1"
    by (simp add: div_eq_dividend_iff Suc_le_eq le_div_geq)
  with True show ?thesis by simp
next
  case False
  then obtain k where k: "m = k + 6"
    by (metis add.commute le_add_diff_inverse linorder_le_cases)
  have "(k + 6 + 5) div 6 = Suc ((k + 5) div 6)"
    by (simp add: add.commute add.left_commute)
  with k show ?thesis by simp
qed

lemma batch_loop_length:
  "length (batch_loop pages i batches) =
   length batches + (length pages - i + (BATCH_SIZE - 1)) div BATCH_SIZE"
proof (induction pages i batches rule: batch_loop.induct)
  case (1 pages i batches)
  show ?case
  proof (cases "i < length pages")
    case True
    then have "0 < length pages - i" by simp
    from ceil_step [OF this]
    have "Suc ((length pages - (i + 6) + 5) div 6) = (length pages - i + 5) div 6"
      by (simp add: diff_diff_eq)
    with True 1 show ?thesis
      by (subst batch_loop.simps) (simp add: BATCH_SIZE_def)
  next
    case False
    then show ?thesis
      by (subst batch_loop.simps) (simp add: BATCH_SIZE_def)
  qed
qed

lemma batch_loop_groups:
  "\<forall>b \<in> set batches. b \<noteq> [] \<and> length b \<le> BATCH_SIZE \<Longrightarrow>
   \<forall>b \<in> set (batch_loop pages i batches). b \<noteq> [] \<and> length b \<le> BATCH_SIZE"
proof (induction pages i batches rule: batch_loop.induct)
  case (1 pages i batches)
  show ?case
  proof (cases "i < length pages")
    case True
    have "\<forall>b \<in> set (batches @ [slice pages i (i + BATCH_SIZE)]).
            b \<noteq> [] \<and> length b \<le> BATCH_SIZE"
      using True "1.prems" by (auto simp: slice_def BATCH_SIZE_def)
    with True "1.IH" show ?thesis
      by (subst batch_loop.simps) simp
  next
    case False
    with "1.prems" show ?thesis
      by (subst batch_loop.simps) simp
  qed
qed

lemma ceiling_div_BATCH_SIZE:
  "nat \<lceil>real n / real BATCH_SIZE\<rceil> = (n + (BATCH_SIZE - 1)) div BATCH_SIZE"
proof -
  have "\<lceil>real n / real BATCH_SIZE\<rceil> = - \<lfloor>real_of_int (- int n) / real_of_int 6\<rfloor>"
    by (simp add: BATCH_SIZE_def ceiling_def)
  also have "\<dots> = - ((- int n) div 6)"
    by (simp only: floor_divide_of_int_eq)
  finally have "\<lceil>real n / real BATCH_SIZE\<rceil> = - ((- int n) div 6)" .
  moreover have "- ((- int n) div 6) = int ((n + 5) div 6)"
    by (simp add: zdiv_int)
  ultimately show ?thesis
    by (simp add: BATCH_SIZE_def)
qed

lemma make_batches_pages: "sum_list (map length (make_batches pages)) = length pages"
proof -
  have "concat (make_batches pages) = pages"
    by (simp add: make_batches_def batch_loop_concat)
  then have "length (concat (make_batches pages)) = length pages"
    by simp
  then show ?thesis
    by (simp add: length_concat)
qed

text \<open>
  Claim C4. For a non-empty sequence of \<open>N\<close> pages and the batch size \<open>B = 6\<close>, the
  batching loop produces exactly \<open>\<lceil>N / B\<rceil>\<close> groups; their concatenation in order is the
  page sequence itself, so the groups are contiguous and every page occurs exactly once
  in its original position; no group is empty and none has more than \<open>B\<close> pages.
\<close>

theorem make_batches_partition:
  "pages \<noteq> [] \<Longrightarrow>
   length (make_batches pages) = nat \<lceil>real (length pages) / real BATCH_SIZE\<rceil> \<and>
   concat (make_batches pages) = pages \<and>
   (\<forall>b \<in> set (make_batches pages). b \<noteq> [] \<and> length b \<le> BATCH_SIZE)"
  using batch_loop_groups [of "[]" pages 0]
  by (simp add: make_batches_def batch_loop_concat batch_loop_length ceiling_div_BATCH_SIZE)

theorem make_batches_partition_witness:
  "[1, 2, 3, 4, 5, 6, 7, 8, 9, 10 :: nat] \<noteq> [] \<and>
   length (make_batches [1, 2, 3, 4, 5, 6, 7, 8, 9, 10 :: nat]) = 2 \<and>
   concat (make_batches [1, 2, 3, 4, 5, 6, 7, 8, 9, 10 :: nat]) =
     [1, 2, 3, 4, 5, 6, 7, 8, 9, 10]"
  using make_batches_partition [of "[1, 2, 3, 4, 5, 6, 7, 8, 9, 10 :: nat]"]
  by (simp add: BATCH_SIZE_def)

text \<open>
  The example of the specification: ten pages give two batches, of six and of four
  pages.
\<close>

lemma make_batches_ten_pages:
  "make_batches [1, 2, 3, 4, 5, 6, 7, 8, 9, 10 :: nat] =
     [[1, 2, 3, 4, 5, 6], [7, 8, 9, 10]]"
  by (simp add: make_batches_def batch_loop.simps slice_def BATCH_SIZE_def)

lemma sample_batches: "make_batches [11, 12, 13, 14, 15, 16, 17 :: nat] = [[11, 12, 13, 14, 15, 16], [17]]"
  by (simp add: make_batches_def batch_loop.simps slice_def BATCH_SIZE_def)

lemma sample_render_batches:
  "make_batches [11, 12, 13, 14, 15, 16, 17 :: nat] = [] @ [11, 12, 13, 14, 15, 16] # [[17]]"
  by (simp add: sample_batches)

section \<open>Properties of the validator\<close>

lemma merge_results_Inr:
  "merge_results rs = Inr vs \<Longrightarrow> rs = map Inr vs"
  by (induction rs arbitrary: vs) (auto split: sum.splits)

lemma final_object_keys:
  "fst ` set (final_object data ks vs) \<subseteq> set ks"
  by (induction data ks vs rule: final_object.induct) auto

lemma final_object_get:
  "distinct ks \<Longrightarrow> length ks = length vs \<Longrightarrow>
   get (JObj (final_object data ks vs)) k =
     (case map_of (zip ks vs) k of None \<Rightarrow> JUndefined | Some v \<Rightarrow> v)"
proof (induction ks vs rule: list_induct2')
  case (4 a ks v vs)
  have absent: "map_of (final_object data ks vs) a = None"
    using final_object_keys [of data ks vs] "4.prems"(1)
    by (auto simp: map_of_eq_None_iff)
  from 4 have IH: "get (JObj (final_object data ks vs)) k =
      (case map_of (zip ks vs) k of None \<Rightarrow> JUndefined | Some v \<Rightarrow> v)"
    by simp
  show ?case
  proof (cases "v \<noteq> JUndefined \<or> has_key data a")
    case True
    with IH show ?thesis by (auto split: option.splits)
  next
    case False
    then have v: "v = JUndefined" by simp
    show ?thesis
    proof (cases "k = a")
      case True
      with False v absent show ?thesis by simp
    next
      case False
      with \<open>\<not> (v \<noteq> JUndefined \<or> has_key data a)\<close> IH show ?thesis by simp
    qed
  qed
qed simp_all

lemma zparse_object_field:
  assumes ok: "zparse (ZObject shape) p data = Inr r"
    and d: "distinct (map fst shape)"
    and ks: "(k, s) \<in> set shape"
  shows "zparse s (p @ [Key k]) (get data k) = Inr (get r k)"
proof -
  let ?f = "\<lambda>(k, s). zparse s (p @ [Key k]) (get data k)"
  from ok obtain kvs where data: "data = JObj kvs"
    by (cases data) auto
  from ok data obtain vs where
    vs: "merge_results (map ?f shape) = Inr vs"
    and r: "r = JObj (final_object data (map fst shape) vs)"
    by (auto split: sum.splits)
  from merge_results_Inr [OF vs] have eq: "map ?f shape = map Inr vs" .
  have len: "length shape = length vs"
    using arg_cong [OF eq, of length] by simp
  from ks obtain i where i: "i < length shape" "shape ! i = (k, s)"
    by (auto simp: in_set_conv_nth)
  have "map ?f shape ! i = map Inr vs ! i"
    using arg_cong [OF eq, of "\<lambda>xs. xs ! i"] by simp
  with i len have field: "zparse s (p @ [Key k]) (get data k) = Inr (vs ! i)"
    by simp
  have "map_of (zip (map fst shape) vs) (map fst shape ! i) = Some (vs ! i)"
    using map_of_zip_nth [of "map fst shape" vs i] d i len by simp
  with i have "map_of (zip (map fst shape) vs) k = Some (vs ! i)"
    by simp
  then have "get r k = vs ! i"
    using final_object_get [OF d, of vs data k] len r by simp
  with field show ?thesis by simp
qed

lemma zparse_object_keys:
  assumes ok: "zparse (ZObject shape) p data = Inr r"
    and k: "has_key r k"
  shows "k \<in> fst ` set shape"
proof -
  from ok obtain vs where r: "r = JObj (final_object data (map fst shape) vs)"
    by (cases data) (auto split: sum.splits)
  with k have "k \<in> fst ` set (final_object data (map fst shape) vs)"
    by simp
  with final_object_keys [of data "map fst shape" vs] show ?thesis
    by auto
qed

lemma final_object_cong:
  "(\<forall>k \<in> set ks. has_key data k = has_key data' k) \<Longrightarrow>
   final_object data ks vs = final_object data' ks vs"
  by (induction data ks vs rule: final_object.induct) auto

lemma map_of_filter_keys:
  "k \<in> K \<Longrightarrow> map_of (filter (\<lambda>(k, v). k \<in> K) kvs) k = map_of kvs k"
  by (induction kvs) auto

lemma zparse_object_strip:
  "zparse (ZObject shape) p (JObj kvs) =
   zparse (ZObject shape) p (JObj (filter (\<lambda>(k, v). k \<in> fst ` set shape) kvs))"
proof -
  let ?kvs' = "filter (\<lambda>(k, v). k \<in> fst ` set shape) kvs"
  have g: "get (JObj ?kvs') k = get (JObj kvs) k" if "(k, s) \<in> set shape" for k s
  proof -
    from that have "k \<in> fst ` set shape" by force
    then show ?thesis by (simp add: map_of_filter_keys)
  qed
  have m: "map (\<lambda>(k, s). zparse s (p @ [Key k]) (get (JObj kvs) k)) shape =
        map (\<lambda>(k, s). zparse s (p @ [Key k]) (get (JObj ?kvs') k)) shape"
    using g by (auto simp del: get.simps)
  have f: "final_object (JObj kvs) (map fst shape) vs =
        final_object (JObj ?kvs') (map fst shape) vs" for vs
    by (rule final_object_cong) force
  show ?thesis
    by (simp only: zparse.simps jsval.case m f)
qed

lemma shape_partial_schema:
  "partial ExtractedDataSchema = ZObject
     [(''documentType'', ZOptional (ZOptional ZString)),
      (''invoiceNumber'', ZOptional (ZOptional ZString)),
      (''date'', ZOptional (ZOptional ZString)),
      (''vendor'', ZOptional (ZOptional ZString)),
      (''buyer'', ZOptional (ZOptional ZString)),
      (''total'', ZOptional (ZOptional ZString)),
      (''currency'', ZOptional (ZOptional ZString)),
      (''lineItems'', ZOptional (ZOptional (ZArray (ZObject
         [(''description'', ZOptional ZString),
          (''quantity'', ZOptional ZString),
          (''unitPrice'', ZOptional ZString),
          (''amount'', ZOptional ZString)])))),
      (''meta'', ZOptional (ZOptional (ZObject
         [(''pagesProcessed'', ZOptional ZNumber)])))]"
  by (simp add: ExtractedDataSchema_def)

lemma partial_schema_keys:
  "\<exists>shape. partial ExtractedDataSchema = ZObject shape \<and> fst ` set shape = set declared_keys"
  by (simp add: shape_partial_schema declared_keys_def)

lemma declared_only_undefined: "declared_only s JUndefined"
  by (induction s) auto

lemma declared_field_member:
  "(k, s) \<in> set shape \<Longrightarrow> declared_only s v \<Longrightarrow> declared_field shape k v"
  by (induction shape) auto

lemma declared_field_key: "declared_field shape k v \<Longrightarrow> k \<in> fst ` set shape"
  by (induction shape) auto

lemma final_object_zip: "set (final_object data ks vs) \<subseteq> set (zip ks vs)"
  by (induction data ks vs rule: final_object.induct) auto

lemma zparse_declared_only:
  "zparse s p v = Inr r \<Longrightarrow> declared_only s r"
proof (induction s p v arbitrary: r rule: zparse.induct)
  case (1 p v)
  then show ?case by (auto split: if_splits)
next
  case (2 p v)
  then show ?case by (auto split: if_splits)
next
  case (3 s p v)
  then show ?case
    by (auto simp: declared_only_undefined split: if_splits)
next
  case (4 s p v)
  let ?f = "\<lambda>(i, x). zparse s (p @ [Index i]) x"
  from "4.prems" obtain xs vs where v: "v = JArr xs"
    and vs: "merge_results (map ?f (enumerate 0 xs)) = Inr vs" and r: "r = JArr vs"
    by (cases v) (auto split: sum.splits)
  from merge_results_Inr [OF vs] have eq: "map ?f (enumerate 0 xs) = map Inr vs" .
  have len: "length xs = length vs"
    using arg_cong [OF eq, of length] by simp
  have "declared_only s (vs ! j)" if j: "j < length vs" for j
  proof -
    have "map ?f (enumerate 0 xs) ! j = map Inr vs ! j"
      using arg_cong [OF eq, of "\<lambda>ys. ys ! j"] by simp
    with j len have "zparse s (p @ [Index j]) (xs ! j) = Inr (vs ! j)"
      by (simp add: nth_enumerate_eq)
    moreover from j len have "(j, xs ! j) \<in> set (enumerate 0 xs)"
      by (auto simp: in_set_enumerate_eq)
    ultimately show ?thesis
      using "4.IH" [OF v] by blast
  qed
  then have "list_all (declared_only s) vs"
    by (auto simp: list_all_length)
  with r show ?case by simp
next
  case (5 shape p v)
  let ?f = "\<lambda>(k, s). zparse s (p @ [Key k]) (get v k)"
  from "5.prems" obtain kvs vs where v: "v = JObj kvs"
    and vs: "merge_results (map ?f shape) = Inr vs"
    and r: "r = JObj (final_object v (map fst shape) vs)"
    by (cases v) (auto split: sum.splits)
  from merge_results_Inr [OF vs] have eq: "map ?f shape = map Inr vs" .
  have len: "length shape = length vs"
    using arg_cong [OF eq, of length] by simp
  have "declared_field shape k x"
    if "(k, x) \<in> set (final_object v (map fst shape) vs)" for k x
  proof -
    from that final_object_zip [of v "map fst shape" vs]
    have "(k, x) \<in> set (zip (map fst shape) vs)" by blast
    then obtain i where i: "i < length shape" "map fst shape ! i = k" "vs ! i = x"
      using len by (auto simp: in_set_zip)
    obtain s where s: "shape ! i = (k, s)"
      using i by (cases "shape ! i") auto
    with i have mem: "(k, s) \<in> set shape"
      by (metis nth_mem)
    have "map ?f shape ! i = map Inr vs ! i"
      using arg_cong [OF eq, of "\<lambda>ys. ys ! i"] by simp
    with i len s have "zparse s (p @ [Key k]) (get v k) = Inr x"
      by simp
    from "5.IH" [OF v mem refl this] have "declared_only s x" .
    with mem show ?thesis
      by (rule declared_field_member)
  qed
  then have "list_all (\<lambda>(k, x). declared_field shape k x) (final_object v (map fst shape) vs)"
    by (auto simp: list_all_iff)
  with r show ?case by simp
qed

lemma declared_only_keys:
  "declared_only (ZObject shape) r \<Longrightarrow> has_key r k \<Longrightarrow> k \<in> fst ` set shape"
  by (cases r) (force simp: list_all_iff dest: declared_field_key)+

lemma strip_type:
  "getParsedType (strip s v) = getParsedType v"
  "getParsedType (strip_field shape k v) = getParsedType v"
  by (induction s v and shape k v rule: strip_strip_field.induct) auto

lemma strip_undefined: "strip s JUndefined = JUndefined"
  using strip_type(1) [of s JUndefined] by (cases "strip s JUndefined") auto

lemma strip_field_member:
  "distinct (map fst shape) \<Longrightarrow> (k, s) \<in> set shape \<Longrightarrow> strip_field shape k v = strip s v"
  by (induction shape) (auto simp: rev_image_eqI)

lemma distinct_fields_member:
  "distinct_fields shape \<Longrightarrow> (k, s) \<in> set shape \<Longrightarrow> distinct_keys s"
  by (induction shape) auto

lemma enumerate_map:
  "enumerate n (map f xs) = map (\<lambda>(i, x). (i, f x)) (enumerate n xs)"
  by (induction xs arbitrary: n) auto

lemma map_of_strip:
  "k \<in> K \<Longrightarrow>
   map_of (map (\<lambda>(k, v). (k, f k v)) (filter (\<lambda>(k, v). k \<in> K) kvs)) k =
     map_option (f k) (map_of kvs k)"
  by (induction kvs) auto

lemma zparse_strip:
  "distinct_keys s \<Longrightarrow> zparse s p (strip s v) = zparse s p v"
proof (induction s p v rule: zparse.induct)
  case (1 p v)
  then show ?case by simp
next
  case (2 p v)
  then show ?case by simp
next
  case (3 s p v)
  then show ?case
    by (simp add: strip_type)
next
  case (4 s p v)
  show ?case
  proof (cases v)
    case (JArr xs)
    have "zparse s (p @ [Index i]) (strip s x) = zparse s (p @ [Index i]) x"
      if "(i, x) \<in> set (enumerate 0 xs)" for i x
      using "4.IH" [OF JArr that] "4.prems" by simp
    then have "map (\<lambda>(i, x). zparse s (p @ [Index i]) x) (enumerate 0 (map (strip s) xs)) =
        map (\<lambda>(i, x). zparse s (p @ [Index i]) x) (enumerate 0 xs)"
      by (auto simp: enumerate_map)
    with JArr show ?thesis
      by simp
  qed simp_all
next
  case (5 shape p v)
  show ?case
  proof (cases v)
    case (JObj kvs)
    let ?kvs' = "map (\<lambda>(k, v). (k, strip_field shape k v))
        (filter (\<lambda>(k, v). k \<in> fst ` set shape) kvs)"
    from "5.prems" have d: "distinct (map fst shape)" and df: "distinct_fields shape"
      by simp_all
    have field: "zparse s (p @ [Key k]) (get (JObj ?kvs') k) =
        zparse s (p @ [Key k]) (get (JObj kvs) k)" if ks: "(k, s) \<in> set shape" for k s
    proof -
      from ks have k: "k \<in> fst ` set shape" by force
      have "get (JObj ?kvs') k = strip s (get (JObj kvs) k)"
        using map_of_strip [OF k, of "strip_field shape" kvs]
          strip_field_member [OF d ks]
        by (cases "map_of kvs k") (simp_all add: strip_undefined)
      moreover have "zparse s (p @ [Key k]) (strip s (get v k)) = zparse s (p @ [Key k]) (get v k)"
        using "5.IH" [OF JObj ks refl] distinct_fields_member [OF df ks] by simp
      ultimately show ?thesis
        using JObj by simp
    qed
    have m: "map (\<lambda>(k, s). zparse s (p @ [Key k]) (get (JObj ?kvs') k)) shape =
        map (\<lambda>(k, s). zparse s (p @ [Key k]) (get (JObj kvs) k)) shape"
      using field by (auto simp del: get.simps)
    have f: "final_object (JObj ?kvs') (map fst shape) vs =
        final_object (JObj kvs) (map fst shape) vs" for vs
      by (rule final_object_cong) force
    have "strip (ZObject shape) (JObj kvs) = JObj ?kvs'"
      by simp
    with JObj show ?thesis
      by (simp only: zparse.simps jsval.case m f)
  qed simp_all
qed

section \<open>Properties of the merge of one batch\<close>

lemma merged_get_set:
  "merged_get (merged_set m k' v) k = (if k = k' \<and> k \<in> set scalar_keys then v else merged_get m k)"
  by (simp add: merged_get_def merged_set_def scalar_keys_def)

lemma lineItems_set [simp]: "lineItems (merged_set m k v) = lineItems m"
  by (simp add: merged_set_def)

lemma meta_set [simp]: "meta (merged_set m k v) = meta m"
  by (simp add: merged_set_def)

lemma merged_get_merge_key:
  "merged_get (merge_key result m k') k =
     (if k = k' \<and> k \<in> set scalar_keys \<and> eq_null (merged_get m k) \<and> \<not> eq_null (get result k)
      then get result k else merged_get m k)"
  by (auto simp: merge_key_def merged_get_set)

lemma merged_get_foldl:
  "distinct ks \<Longrightarrow>
   merged_get (foldl (merge_key result) m ks) k =
     (if k \<in> set ks \<and> k \<in> set scalar_keys \<and> eq_null (merged_get m k) \<and> \<not> eq_null (get result k)
      then get result k else merged_get m k)"
proof (induction ks arbitrary: m)
  case Nil
  then show ?case by simp
next
  case (Cons a ks)
  then show ?case
    by (auto simp: merged_get_merge_key)
qed

lemma lineItems_foldl [simp]: "lineItems (foldl (merge_key result) m ks) = lineItems m"
  by (induction ks arbitrary: m) (simp_all add: merge_key_def)

lemma meta_foldl [simp]: "meta (foldl (merge_key result) m ks) = meta m"
  by (induction ks arbitrary: m) (simp_all add: merge_key_def)

lemma merged_get_frame:
  "merged_get (m\<lparr>lineItems := xs\<rparr>) k = merged_get m k"
  "merged_get (m\<lparr>meta := c\<rparr>) k = merged_get m k"
  by (simp_all add: merged_get_def)

lemma merged_get_merge_batch:
  "k \<in> set scalar_keys \<Longrightarrow>
   merged_get (merge_batch m result n) k =
     (if eq_null (merged_get m k) \<and> \<not> eq_null (get result k) then get result k
      else merged_get m k)"
proof -
  assume k: "k \<in> set scalar_keys"
  have d: "distinct scalar_keys" by (simp add: scalar_keys_def)
  show ?thesis
    using k by (simp add: merge_batch_def Let_def merged_get_frame merged_get_foldl [OF d] split: jsval.split)
qed

lemma lineItems_merge_batch:
  "lineItems (merge_batch m result n) = lineItems m @ line_items_of result"
  by (simp add: merge_batch_def line_items_of_def Let_def split: jsval.split)

lemma pages_merge_batch:
  "pagesProcessed (meta (merge_batch m result n)) = pagesProcessed (meta m) + n"
  by (simp add: merge_batch_def Let_def split: jsval.split)

lemma meta_merge_batch:
  "meta (merge_batch m result n) = \<lparr> pagesProcessed = pagesProcessed (meta m) + n \<rparr>"
  by (simp add: merge_batch_def Let_def split: jsval.split)

section \<open>Properties of the loop\<close>

lemma merge_sequence_Nil [simp]: "merge_sequence m [] = m"
  by (simp add: merge_sequence_def)

lemma merge_sequence_Cons [simp]:
  "merge_sequence m ((result, n) # rs) = merge_sequence (merge_batch m result n) rs"
  by (simp add: merge_sequence_def)

lemma merge_sequence_append:
  "merge_sequence m (rs1 @ rs2) = merge_sequence (merge_sequence m rs1) rs2"
  by (simp add: merge_sequence_def)

lemma merge_sequence_keeps:
  "k \<in> set scalar_keys \<Longrightarrow> \<not> eq_null (merged_get m k) \<Longrightarrow>
   merged_get (merge_sequence m rs) k = merged_get m k"
proof (induction rs arbitrary: m)
  case Nil
  then show ?case by simp
next
  case (Cons r rs)
  obtain result n where r: "r = (result, n)" by (cases r)
  from Cons.prems have "merged_get (merge_batch m result n) k = merged_get m k"
    by (simp add: merged_get_merge_batch)
  with Cons r show ?case by simp
qed

lemma merged_get_initial: "k \<in> set scalar_keys \<Longrightarrow> merged_get initial_merged k = JNull"
  by (auto simp: scalar_keys_def merged_get_def initial_merged_def)

lemma merge_sequence_earliest:
  "k \<in> set scalar_keys \<Longrightarrow> merged_get m k = JNull \<Longrightarrow>
   merged_get (merge_sequence m rs) k = earliest_value k (map fst rs)"
proof (induction rs arbitrary: m)
  case Nil
  then show ?case by (simp add: earliest_value_def)
next
  case (Cons r rs)
  obtain result n where r: "r = (result, n)" by (cases r)
  show ?case
  proof (cases "eq_null (get result k)")
    case True
    with Cons.prems have "merged_get (merge_batch m result n) k = JNull"
      by (simp add: merged_get_merge_batch)
    from Cons.IH [OF Cons.prems(1) this] True r show ?thesis
      by (simp add: earliest_value_def)
  next
    case False
    with Cons.prems have g: "merged_get (merge_batch m result n) k = get result k"
      by (simp add: merged_get_merge_batch eq_null_def)
    with False have "merged_get (merge_sequence (merge_batch m result n) rs) k = get result k"
      using merge_sequence_keeps [OF Cons.prems(1), of "merge_batch m result n" rs] by simp
    with False r show ?thesis
      by (simp add: earliest_value_def)
  qed
qed

lemma lineItems_merge_sequence:
  "lineItems (merge_sequence m rs) = lineItems m @ concat (map (line_items_of \<circ> fst) rs)"
  by (induction rs arbitrary: m) (auto simp: lineItems_merge_batch)

lemma pages_merge_sequence:
  "pagesProcessed (meta (merge_sequence m rs)) = pagesProcessed (meta m) + sum_list (map snd rs)"
  by (induction rs arbitrary: m) (auto simp: pages_merge_batch)

lemma process_batches_merge_sequence:
  "process_batches json_parse vision count idx batches m =
     (case candidates json_parse vision count idx batches of
        Inl err \<Rightarrow> Inl err
      | Inr results \<Rightarrow> Inr (merge_sequence m (zip results (map length batches))))"
  by (induction batches arbitrary: idx m) (auto split: sum.splits)

lemma candidates_length:
  "candidates json_parse vision count idx batches = Inr results \<Longrightarrow>
   length results = length batches"
  by (induction batches arbitrary: idx results) (auto split: sum.splits)

lemma process_batches_results:
  assumes "candidates json_parse vision count idx batches = Inr results"
  shows "process_batches json_parse vision count idx batches m0 =
           Inr (merge_sequence m0 (zip results (map length batches))) \<and>
         map fst (zip results (map length batches)) = results \<and>
         map snd (zip results (map length batches)) = map length batches"
  using assms candidates_length [OF assms]
  by (simp add: process_batches_merge_sequence map_fst_zip map_snd_zip)

lemma process_batches_pages:
  assumes "process_batches json_parse vision count idx batches m0 = Inr m"
  shows "pagesProcessed (meta m) = pagesProcessed (meta m0) + sum_list (map length batches)"
proof -
  from assms obtain results where
    results: "candidates json_parse vision count idx batches = Inr results"
    by (auto simp: process_batches_merge_sequence split: sum.splits)
  from process_batches_results [OF results, of m0] assms show ?thesis
    by (simp add: pages_merge_sequence)
qed


section \<open>The sample request, evaluated\<close>

lemma sample_first:
  "extract_batch sample_json_parse sample_vision 0 count batch = Inr first_parsed"
  by (simp add: extract_batch_def sample_vision_def parse_content_def sample_json_parse_def
      first_answer_def second_answer_def first_parsed_def shape_partial_schema)

lemma sample_second:
  "extract_batch sample_json_parse sample_vision (Suc idx) count batch = Inr second_result"
  by (simp add: extract_batch_def sample_vision_def parse_content_def sample_json_parse_def
      first_answer_def second_answer_def second_parsed_def second_result_def
      shape_partial_schema)

lemma sample_candidates:
  "candidates sample_json_parse sample_vision count 0 [[11, 12, 13, 14, 15, 16], [17]] =
     Inr [first_parsed, second_result]"
  by (simp add: sample_first sample_second)

lemma sample_loop:
  "process_batches sample_json_parse sample_vision count 0 [[11, 12, 13, 14, 15, 16], [17]]
     initial_merged = Inr sample_merged"
  by (simp add: sample_first sample_second merge_batch_def merge_key_def merged_get_def
      merged_set_def scalar_keys_def initial_merged_def eq_null_def first_parsed_def
      second_result_def sample_merged_def)

lemma sample_run:
  "extract_handler sample_json_parse sample_render sample_vision (Some ()) =
     Success 7 (merged_value sample_merged)"
  by (simp add: extract_handler_def extract_pages_def sample_render_def sample_batches
      sample_loop merged_value_def sample_merged_def ExtractedDataSchema_def
      del: process_batches.simps)

section \<open>First non-null wins\<close>

text \<open>
  Claim C1. Let \<open>rs1\<close> be the results of the batches processed so far and \<open>rs2\<close> those
  of the later batches, in batch order. For each scalar field, the final merged value is
  the value of the earliest result that has a non-null one, and null when no result
  has; and a field that is non-null after \<open>rs1\<close> has the same value after the later
  batches. Both hold for arbitrary results, validated or not. For the handler: when its
  loop ends, each scalar field of \<^verbatim>\<open>merged\<close> has the value of the earliest validated
  candidate with a non-null one.
\<close>

theorem first_non_null_wins:
  "key \<in> set scalar_keys \<Longrightarrow>
   merged_get (merge_sequence initial_merged (rs1 @ rs2)) key =
     earliest_value key (map fst (rs1 @ rs2)) \<and>
   (\<not> eq_null (merged_get (merge_sequence initial_merged rs1) key) \<longrightarrow>
    merged_get (merge_sequence initial_merged (rs1 @ rs2)) key =
      merged_get (merge_sequence initial_merged rs1) key) \<and>
   (candidates json_parse vision count idx batches = Inr results \<and>
    process_batches json_parse vision count idx batches initial_merged = Inr m \<longrightarrow>
    merged_get m key = earliest_value key results)"
proof -
  assume key: "key \<in> set scalar_keys"
  have final: "merged_get (merge_sequence initial_merged rs) key =
      earliest_value key (map fst rs)" for rs
    using key by (rule merge_sequence_earliest) (rule merged_get_initial [OF key])
  have stable: "merged_get (merge_sequence initial_merged (rs1 @ rs2)) key =
      merged_get (merge_sequence initial_merged rs1) key"
    if "\<not> eq_null (merged_get (merge_sequence initial_merged rs1) key)"
    using merge_sequence_keeps [OF key that, of rs2]
    by (simp add: merge_sequence_append)
  have "merged_get m key = earliest_value key results"
    if results: "candidates json_parse vision count idx batches = Inr results"
      and m: "process_batches json_parse vision count idx batches initial_merged = Inr m"
    using process_batches_results [OF results, of initial_merged] m
      final [of "zip results (map length batches)"]
    by simp
  with final stable show ?thesis
    by blast
qed

text \<open>
  The example of the specification, after a batch without the field: the first vendor
  wins over the later one. On the sample request, the vendor is the one of the first
  batch although the second batch names another.
\<close>

theorem first_non_null_wins_witness:
  "''vendor'' \<in> set scalar_keys \<and>
   merged_get (merge_sequence initial_merged
     ([(JObj [(''date'', JStr ''2024-01-31'')], 6), (JObj [(''vendor'', JStr ''Acme'')], 6)] @
      [(JObj [(''vendor'', JStr ''Other'')], 2)])) ''vendor'' = JStr ''Acme'' \<and>
   \<not> eq_null (merged_get (merge_sequence initial_merged
     [(JObj [(''date'', JStr ''2024-01-31'')], 6), (JObj [(''vendor'', JStr ''Acme'')], 6)])
     ''vendor'') \<and>
   candidates sample_json_parse sample_vision 2 0 [[11, 12, 13, 14, 15, 16], [17]] =
     Inr [first_parsed, second_result] \<and>
   process_batches sample_json_parse sample_vision 2 0 [[11, 12, 13, 14, 15, 16], [17]]
     initial_merged = Inr sample_merged \<and>
   merged_get sample_merged ''vendor'' = JStr ''Acme'' \<and>
   get second_result ''vendor'' = JStr ''Other''"
proof -
  let ?rs1 = "[(JObj [(''date'', JStr ''2024-01-31'')], 6 :: nat),
    (JObj [(''vendor'', JStr ''Acme'')], 6)]"
  let ?rs2 = "[(JObj [(''vendor'', JStr ''Other'')], 2 :: nat)]"
  let ?batches = "[[11, 12, 13, 14, 15, 16], [17 :: nat]]"
  have key: "''vendor'' \<in> set scalar_keys"
    by (simp add: scalar_keys_def)
  note wins = first_non_null_wins [OF key, of ?rs1 ?rs2 sample_json_parse sample_vision 2 0
      ?batches "[first_parsed, second_result]" sample_merged]
  have earliest: "earliest_value ''vendor'' (map fst (?rs1 @ ?rs2)) = JStr ''Acme''"
    by (simp add: earliest_value_def eq_null_def)
  from wins [THEN conjunct1] have final:
    "merged_get (merge_sequence initial_merged (?rs1 @ ?rs2)) ''vendor'' = JStr ''Acme''"
    by (simp only: earliest)
  have set: "\<not> eq_null (merged_get (merge_sequence initial_merged ?rs1) ''vendor'')"
    by (simp add: merged_get_merge_batch merged_get_initial eq_null_def scalar_keys_def)
  have results: "candidates sample_json_parse sample_vision 2 0 ?batches =
      Inr [first_parsed, second_result]"
    by (rule sample_candidates)
  have loop: "process_batches sample_json_parse sample_vision 2 0 ?batches initial_merged =
      Inr sample_merged"
    by (rule sample_loop)
  have "earliest_value ''vendor'' [first_parsed, second_result] = JStr ''Acme''"
    by (simp add: earliest_value_def eq_null_def first_parsed_def)
  with wins [THEN conjunct2, THEN conjunct2, THEN mp, OF conjI [OF results loop]]
  have vendor: "merged_get sample_merged ''vendor'' = JStr ''Acme''"
    by (simp only:)
  have other: "get second_result ''vendor'' = JStr ''Other''"
    by (simp add: second_result_def)
  from key final set results loop vendor other show ?thesis
    by (intro conjI)
qed

section \<open>Line items\<close>

text \<open>
  Claim C8. After the results \<open>rs\<close> have been merged in batch order, the line items of
  the merged record are the line items of the results, concatenated in that order (a
  result without an array of line items adds none); their number is the sum of the
  numbers of line items of the results. For the handler: when its loop ends, the line
  items of \<^verbatim>\<open>merged\<close> are those of the validated candidates in batch order.
\<close>

theorem line_items_concatenate:
  "lineItems (merge_sequence initial_merged rs) = concat (map (line_items_of \<circ> fst) rs) \<and>
   length (lineItems (merge_sequence initial_merged rs)) =
     sum_list (map (length \<circ> line_items_of \<circ> fst) rs) \<and>
   (candidates json_parse vision count idx batches = Inr results \<and>
    process_batches json_parse vision count idx batches initial_merged = Inr m \<longrightarrow>
    lineItems m = concat (map line_items_of results) \<and>
    length (lineItems m) = sum_list (map (length \<circ> line_items_of) results))"
proof -
  have items: "lineItems (merge_sequence initial_merged rs) =
      concat (map line_items_of (map fst rs))" for rs
    by (simp add: lineItems_merge_sequence initial_merged_def)
  have count: "length (concat (map line_items_of rs)) =
      sum_list (map (length \<circ> line_items_of) rs)" for rs
    by (simp add: length_concat comp_def)
  have loop: "lineItems m = concat (map line_items_of results) \<and>
      length (lineItems m) = sum_list (map (length \<circ> line_items_of) results)"
    if results: "candidates json_parse vision count idx batches = Inr results"
      and m: "process_batches json_parse vision count idx batches initial_merged = Inr m"
    using process_batches_results [OF results, of initial_merged] m
      items [of "zip results (map length batches)"] count [of results]
    by simp
  have "lineItems (merge_sequence initial_merged rs) = concat (map (line_items_of \<circ> fst) rs)"
    using items [of rs] by simp
  moreover have "length (lineItems (merge_sequence initial_merged rs)) =
      sum_list (map (length \<circ> line_items_of \<circ> fst) rs)"
    using items [of rs] count [of "map fst rs"] by (simp add: comp_def)
  ultimately show ?thesis
    using loop by blast
qed

text \<open>
  The example of the specification: a batch with one line item, then a batch with two,
  give these three in that order; so does the sample request.
\<close>

theorem line_items_concatenate_witness:
  "lineItems (merge_sequence initial_merged
     [(JObj [(''lineItems'', JArr [JObj [(''description'', JStr ''a'')]])], 6),
      (JObj [(''vendor'', JStr ''Acme'')], 6),
      (JObj [(''lineItems'', JArr
         [JObj [(''description'', JStr ''b'')], JObj [(''description'', JStr ''c'')]])], 2)]) =
     [JObj [(''description'', JStr ''a'')], JObj [(''description'', JStr ''b'')],
      JObj [(''description'', JStr ''c'')]] \<and>
   candidates sample_json_parse sample_vision 2 0 [[11, 12, 13, 14, 15, 16], [17]] =
     Inr [first_parsed, second_result] \<and>
   process_batches sample_json_parse sample_vision 2 0 [[11, 12, 13, 14, 15, 16], [17]]
     initial_merged = Inr sample_merged \<and>
   lineItems sample_merged =
     [JObj [(''description'', JStr ''a'')], JObj [(''description'', JStr ''b'')],
      JObj [(''description'', JStr ''c'')]] \<and>
   length (lineItems sample_merged) = 3"
proof -
  let ?rs = "[(JObj [(''lineItems'', JArr [JObj [(''description'', JStr ''a'')]])], 6 :: nat),
      (JObj [(''vendor'', JStr ''Acme'')], 6),
      (JObj [(''lineItems'', JArr
         [JObj [(''description'', JStr ''b'')], JObj [(''description'', JStr ''c'')]])], 2)]"
  let ?batches = "[[11, 12, 13, 14, 15, 16], [17 :: nat]]"
  note items = line_items_concatenate [of ?rs sample_json_parse sample_vision 2 0 ?batches
      "[first_parsed, second_result]" sample_merged]
  have "concat (map (line_items_of \<circ> fst) ?rs) =
     [JObj [(''description'', JStr ''a'')], JObj [(''description'', JStr ''b'')],
      JObj [(''description'', JStr ''c'')]]"
    by (simp add: line_items_of_def)
  with items [THEN conjunct1] have merged: "lineItems (merge_sequence initial_merged ?rs) =
     [JObj [(''description'', JStr ''a'')], JObj [(''description'', JStr ''b'')],
      JObj [(''description'', JStr ''c'')]]"
    by (simp only:)
  have results: "candidates sample_json_parse sample_vision 2 0 ?batches =
      Inr [first_parsed, second_result]"
    by (rule sample_candidates)
  have loop: "process_batches sample_json_parse sample_vision 2 0 ?batches initial_merged =
      Inr sample_merged"
    by (rule sample_loop)
  have "concat (map line_items_of [first_parsed, second_result]) =
     [JObj [(''description'', JStr ''a'')], JObj [(''description'', JStr ''b'')],
      JObj [(''description'', JStr ''c'')]]"
    by (simp add: line_items_of_def first_parsed_def second_result_def)
  with items [THEN conjunct2, THEN conjunct2, THEN mp, OF conjI [OF results loop]]
  have sample: "lineItems sample_merged =
     [JObj [(''description'', JStr ''a'')], JObj [(''description'', JStr ''b'')],
      JObj [(''description'', JStr ''c'')]]"
    by (simp only:)
  then have "length (lineItems sample_merged) = 3"
    by simp
  with merged results loop sample show ?thesis
    by (intro conjI)
qed

section \<open>The page counter\<close>

lemma final_meta:
  assumes "zparse ExtractedDataSchema [] (merged_value m) = Inr final"
  shows "get final ''meta'' = JObj [(''pagesProcessed'', JNum (of_nat (pagesProcessed (meta m))))]"
proof -
  let ?s = "ZOptional (ZObject [(''pagesProcessed'', ZOptional ZNumber)])"
  have "zparse ?s ([] @ [Key ''meta'']) (get (merged_value m) ''meta'') = Inr (get final ''meta'')"
    by (rule zparse_object_field [OF assms [unfolded ExtractedDataSchema_def]]) simp_all
  then show ?thesis
    by (simp add: merged_value_def)
qed

text \<open>
  Claim C7. For a request whose file renders to \<open>N\<close> pages: when the loop over the
  batches ends, the counter of the merged record is the sum of the sizes of the batches,
  which is \<open>N\<close>; and when the handler answers with a success, its \<^verbatim>\<open>pages\<close> field is \<open>N\<close>
  and so is \<^verbatim>\<open>meta.pagesProcessed\<close> of its data. This holds for every JSON parser and
  every model, so whatever number of pages the model reports.
\<close>

theorem pages_counter:
  assumes "render pdfFile = Inr pages"
  shows
    "(process_batches json_parse vision (length (make_batches pages)) 0 (make_batches pages)
        initial_merged = Inr m \<longrightarrow>
      pagesProcessed (meta m) = sum_list (map length (make_batches pages)) \<and>
      pagesProcessed (meta m) = length pages) \<and>
     (extract_handler json_parse render vision (Some pdfFile) = Success n final \<longrightarrow>
      n = length pages \<and>
      get (get final ''meta'') ''pagesProcessed'' = JNum (of_nat (length pages)))"
proof -
  have loop: "pagesProcessed (meta m') = length pages"
    if "process_batches json_parse vision (length (make_batches pages)) 0 (make_batches pages)
          initial_merged = Inr m'" for m'
    using process_batches_pages [OF that] make_batches_pages [of pages]
    by (simp add: initial_merged_def)
  have "n = length pages \<and>
      get (get final ''meta'') ''pagesProcessed'' = JNum (of_nat (length pages))"
    if ok: "extract_handler json_parse render vision (Some pdfFile) = Success n final"
  proof -
    from ok assms obtain m' where
      m': "process_batches json_parse vision (length (make_batches pages)) 0
             (make_batches pages) initial_merged = Inr m'"
      and final: "zparse ExtractedDataSchema [] (merged_value m') = Inr final"
      and n: "n = length pages"
      by (auto simp: extract_handler_def extract_pages_def Let_def
          split: sum.splits if_splits)
    from final_meta [OF final] loop [OF m'] n show ?thesis
      by simp
  qed
  with loop make_batches_pages [of pages] show ?thesis
    by simp
qed

text \<open>
  On the sample request the model reports 99 pages for the first batch; the counter and
  the response say seven.
\<close>

theorem pages_counter_witness:
  "sample_render () = Inr [11, 12, 13, 14, 15, 16, 17] \<and>
   get (get first_parsed ''meta'') ''pagesProcessed'' = JNum 99 \<and>
   process_batches sample_json_parse sample_vision
     (length (make_batches [11, 12, 13, 14, 15, 16, 17 :: nat])) 0
     (make_batches [11, 12, 13, 14, 15, 16, 17]) initial_merged = Inr sample_merged \<and>
   pagesProcessed (meta sample_merged) = length [11, 12, 13, 14, 15, 16, 17 :: nat] \<and>
   extract_handler sample_json_parse sample_render sample_vision (Some ()) =
     Success 7 (merged_value sample_merged) \<and>
   get (get (merged_value sample_merged) ''meta'') ''pagesProcessed'' =
     JNum (of_nat (length [11, 12, 13, 14, 15, 16, 17 :: nat]))"
proof -
  let ?pages = "[11, 12, 13, 14, 15, 16, 17 :: nat]"
  have render: "sample_render () = Inr ?pages"
    by (simp add: sample_render_def)
  note counter = pages_counter [of sample_render "()" ?pages sample_json_parse sample_vision
      sample_merged 7 "merged_value sample_merged", OF render]
  have reported: "get (get first_parsed ''meta'') ''pagesProcessed'' = JNum 99"
    by (simp add: first_parsed_def)
  have loop: "process_batches sample_json_parse sample_vision (length (make_batches ?pages)) 0
      (make_batches ?pages) initial_merged = Inr sample_merged"
    by (simp only: sample_batches sample_loop)
  from counter [THEN conjunct1, THEN mp, OF loop]
  have pages: "pagesProcessed (meta sample_merged) = length ?pages"
    by (rule conjunct2)
  have run: "extract_handler sample_json_parse sample_render sample_vision (Some ()) =
      Success 7 (merged_value sample_merged)"
    by (rule sample_run)
  from counter [THEN conjunct2, THEN mp, OF run]
  have response: "get (get (merged_value sample_merged) ''meta'') ''pagesProcessed'' =
      JNum (of_nat (length ?pages))"
    by (rule conjunct2)
  from render reported loop pages run response show ?thesis
    by (intro conjI)
qed

section \<open>The loop as a fold of the specification's merge\<close>

lemma scalar_field_merge_batch:
  "documentType (merge_batch m result n) =
     spec_first_non_null (documentType m) (get result ''documentType'')"
  "invoiceNumber (merge_batch m result n) =
     spec_first_non_null (invoiceNumber m) (get result ''invoiceNumber'')"
  "date (merge_batch m result n) = spec_first_non_null (date m) (get result ''date'')"
  "vendor (merge_batch m result n) = spec_first_non_null (vendor m) (get result ''vendor'')"
  "buyer (merge_batch m result n) = spec_first_non_null (buyer m) (get result ''buyer'')"
  "total_field (merge_batch m result n) =
     spec_first_non_null (total_field m) (get result ''total'')"
  "currency (merge_batch m result n) =
     spec_first_non_null (currency m) (get result ''currency'')"
  using merged_get_merge_batch [of "''documentType''" m result n]
    merged_get_merge_batch [of "''invoiceNumber''" m result n]
    merged_get_merge_batch [of "''date''" m result n]
    merged_get_merge_batch [of "''vendor''" m result n]
    merged_get_merge_batch [of "''buyer''" m result n]
    merged_get_merge_batch [of "''total''" m result n]
    merged_get_merge_batch [of "''currency''" m result n]
  by (simp_all add: merged_get_def scalar_keys_def spec_first_non_null_def spec_is_null_def
      eq_null_def)

lemma merge_batch_spec_merge: "merge_batch m result n = spec_merge m (result, n)"
  by (rule merged.equality)
     (simp_all add: spec_merge_def scalar_field_merge_batch lineItems_merge_batch
        meta_merge_batch line_items_of_def spec_line_items_def)

lemma merge_sequence_spec_merge: "merge_sequence m rs = foldl spec_merge m rs"
  by (induction rs arbitrary: m) (auto simp: merge_batch_spec_merge)

text \<open>
  Claim C9. The loop of the handler, which threads \<^verbatim>\<open>merged\<close> through the batches and
  updates it key by key, is the left fold of the specification's merge, started from
  the specification's initial record, over the validated candidates paired with the
  sizes of their batches; when a batch fails, the loop fails with the first error. The
  result is a function of the candidate sequence and the batch sizes alone.
\<close>

theorem loop_is_fold:
  "process_batches json_parse vision count idx batches initial_merged =
     (case candidates json_parse vision count idx batches of
        Inl err \<Rightarrow> Inl err
      | Inr results \<Rightarrow>
          Inr (foldl spec_merge spec_initial (zip results (map length batches))))"
  by (simp add: process_batches_merge_sequence merge_sequence_spec_merge
        initial_merged_def spec_initial_def split: sum.split)

text \<open>The loop on the sample request, and the fold on its two candidates.\<close>

theorem loop_is_fold_witness:
  "candidates sample_json_parse sample_vision 2 0 [[11, 12, 13, 14, 15, 16], [17]] =
     Inr [first_parsed, second_result] \<and>
   process_batches sample_json_parse sample_vision 2 0 [[11, 12, 13, 14, 15, 16], [17]]
     initial_merged =
     Inr (foldl spec_merge spec_initial [(first_parsed, 6), (second_result, 1)]) \<and>
   foldl spec_merge spec_initial [(first_parsed, 6), (second_result, 1)] = sample_merged"
proof -
  let ?batches = "[[11, 12, 13, 14, 15, 16], [17 :: nat]]"
  have results: "candidates sample_json_parse sample_vision 2 0 ?batches =
      Inr [first_parsed, second_result]"
    by (rule sample_candidates)
  have sizes: "zip [first_parsed, second_result] (map length ?batches) =
      [(first_parsed, 6), (second_result, 1)]"
    by simp
  have "process_batches sample_json_parse sample_vision 2 0 ?batches initial_merged =
      Inr (foldl spec_merge spec_initial
        (zip [first_parsed, second_result] (map length ?batches)))"
    using loop_is_fold [of sample_json_parse sample_vision 2 0 ?batches]
    by (simp only: results sum.case)
  then have fold: "process_batches sample_json_parse sample_vision 2 0 ?batches
      initial_merged = Inr (foldl spec_merge spec_initial [(first_parsed, 6), (second_result, 1)])"
    by (simp only: sizes)
  with sample_loop [of 2]
  have "foldl spec_merge spec_initial [(first_parsed, 6), (second_result, 1)] = sample_merged"
    by simp
  with results fold show ?thesis
    by (intro conjI)
qed

section \<open>No pages rendered\<close>

text \<open>
  Claim C6. When the renderer returns no page for the uploaded file, the handler
  answers with the server error whose message is
  \<^verbatim>\<open>Could not render any pages from PDF.\<close>, whatever the model and the JSON parser
  would do; it never answers with a success.
\<close>

theorem zero_pages_fails:
  "render pdfFile = Inr [] \<Longrightarrow>
   extract_handler json_parse render vision (Some pdfFile) =
     Failure (Error ''Could not render any pages from PDF.'') \<and>
   (\<forall>n final. extract_handler json_parse render vision (Some pdfFile) \<noteq> Success n final)"
  by (simp add: extract_handler_def extract_pages_def)

theorem zero_pages_fails_witness:
  "(\<lambda>pdfFile :: unit. Inr []) () = (Inr [] :: error + nat list) \<and>
   extract_handler sample_json_parse (\<lambda>pdfFile. Inr []) sample_vision (Some ()) =
     Failure (Error ''Could not render any pages from PDF.'')"
  using zero_pages_fails [of "\<lambda>pdfFile. Inr []" "()" sample_json_parse sample_vision]
  by simp

section \<open>The parse of the model's answer\<close>

lemma indexOf_none: "c \<notin> set xs \<Longrightarrow> indexOf xs c = -1"
  by (induction xs) auto














section \<open>Unknown keys\<close>

lemma declared_only_get:
  "declared_only (ZObject shape) r \<Longrightarrow> get r k \<noteq> JUndefined \<Longrightarrow>
   declared_field shape k (get r k)"
proof (cases r)
  case (JObj kvs)
  assume d: "declared_only (ZObject shape) r" and g: "get r k \<noteq> JUndefined"
  from g JObj obtain x where x: "map_of kvs k = Some x"
    by (cases "map_of kvs k") auto
  then have "(k, x) \<in> set kvs"
    by (rule map_of_SomeD)
  with d JObj have "declared_field shape k x"
    by (auto simp: list_all_iff)
  with x JObj show ?thesis by simp
qed simp_all

lemma candidates_member:
  "candidates json_parse vision count idx batches = Inr results \<Longrightarrow> r \<in> set results \<Longrightarrow>
   \<exists>i b. extract_batch json_parse vision i count b = Inr r"
proof (induction batches arbitrary: idx results)
  case Nil
  then show ?case by simp
next
  case (Cons batch rest)
  from Cons.prems(1) obtain r0 rs where
    r0: "extract_batch json_parse vision idx count batch = Inr r0"
    and rs: "candidates json_parse vision count (idx + 1) rest = Inr rs"
    and results: "results = r0 # rs"
    by (auto split: sum.splits)
  show ?case
  proof (cases "r = r0")
    case True
    with r0 show ?thesis by blast
  next
    case False
    with Cons.prems(2) results have "r \<in> set rs" by simp
    from Cons.IH [OF rs this] show ?thesis .
  qed
qed

lemma declared_only_partial_schema:
  assumes "declared_only (partial ExtractedDataSchema) result"
  shows "(\<forall>key. has_key result key \<longrightarrow> key \<in> set declared_keys) \<and>
         (\<forall>item \<in> set (line_items_of result).
            \<forall>key. has_key item key \<longrightarrow> key \<in> set item_keys) \<and>
         (\<forall>key. has_key (get result ''meta'') key \<longrightarrow> key = ''pagesProcessed'')"
proof -
  let ?item = "ZObject
     [(''description'', ZOptional ZString),
      (''quantity'', ZOptional ZString),
      (''unitPrice'', ZOptional ZString),
      (''amount'', ZOptional ZString)]"
  let ?meta = "ZObject [(''pagesProcessed'', ZOptional ZNumber)]"
  let ?shape =
    "[(''documentType'', ZOptional (ZOptional ZString)),
      (''invoiceNumber'', ZOptional (ZOptional ZString)),
      (''date'', ZOptional (ZOptional ZString)),
      (''vendor'', ZOptional (ZOptional ZString)),
      (''buyer'', ZOptional (ZOptional ZString)),
      (''total'', ZOptional (ZOptional ZString)),
      (''currency'', ZOptional (ZOptional ZString)),
      (''lineItems'', ZOptional (ZOptional (ZArray ?item))),
      (''meta'', ZOptional (ZOptional ?meta))]"
  from assms have d: "declared_only (ZObject ?shape) result"
    by (simp only: shape_partial_schema)
  have root: "key \<in> set declared_keys" if "has_key result key" for key
    using declared_only_keys [OF d that] by (simp add: declared_keys_def)
  have items: "key \<in> set item_keys"
    if item: "item \<in> set (line_items_of result)" and key: "has_key item key" for item key
  proof -
    from item obtain xs where xs: "get result ''lineItems'' = JArr xs" and mem: "item \<in> set xs"
      by (cases "get result ''lineItems''") (auto simp: line_items_of_def)
    from xs have "get result ''lineItems'' \<noteq> JUndefined" by simp
    from declared_only_get [OF d this] xs
    have "declared_field ?shape ''lineItems'' (JArr xs)" by simp
    then have "list_all (declared_only ?item) xs"
      by simp
    with mem have "declared_only ?item item"
      by (simp add: list_all_iff)
    from declared_only_keys [OF this key] show ?thesis
      by (simp add: item_keys_def)
  qed
  have meta: "key = ''pagesProcessed''" if key: "has_key (get result ''meta'') key" for key
  proof -
    from key have "get result ''meta'' \<noteq> JUndefined" by auto
    from declared_only_get [OF d this]
    have "declared_only ?meta (get result ''meta'')"
      by simp
    from declared_only_keys [OF this key] show ?thesis
      by simp
  qed
  from root items meta show ?thesis
    by blast
qed

lemma distinct_keys_partial_schema: "distinct_keys (partial ExtractedDataSchema)"
  by (simp add: shape_partial_schema)

text \<open>
  Claim C10. The validation of a batch ignores the keys that the schema does not
  declare, in the record, in its line items and under \<^verbatim>\<open>meta\<close>: an object is validated
  exactly as the object without them is, so it passes when its declared fields conform,
  whatever else it carries. The validated result, which is what the merge reads, has
  declared keys only at every level, and so have the line items of \<^verbatim>\<open>merged\<close> when the
  loop ends.
\<close>

theorem unknown_keys_stripped:
  "zparse (partial ExtractedDataSchema) [] (JObj kvs) =
     zparse (partial ExtractedDataSchema) []
       (JObj (filter (\<lambda>(key, v). key \<in> set declared_keys) kvs)) \<and>
   zparse (partial ExtractedDataSchema) [] parsed =
     zparse (partial ExtractedDataSchema) [] (strip (partial ExtractedDataSchema) parsed) \<and>
   (zparse (partial ExtractedDataSchema) [] parsed = Inr result \<longrightarrow>
      (\<forall>key. has_key result key \<longrightarrow> key \<in> set declared_keys) \<and>
      declared_only (partial ExtractedDataSchema) result) \<and>
   (extract_batch json_parse vision idx count batch = Inr result \<longrightarrow>
      (\<forall>key. has_key result key \<longrightarrow> key \<in> set declared_keys) \<and>
      declared_only (partial ExtractedDataSchema) result \<and>
      (\<forall>item \<in> set (line_items_of result).
         \<forall>key. has_key item key \<longrightarrow> key \<in> set item_keys) \<and>
      (\<forall>key. has_key (get result ''meta'') key \<longrightarrow> key = ''pagesProcessed'')) \<and>
   (candidates json_parse vision count idx batches = Inr results \<and>
    process_batches json_parse vision count idx batches initial_merged = Inr m \<longrightarrow>
      (\<forall>item \<in> set (lineItems m). \<forall>key. has_key item key \<longrightarrow> key \<in> set item_keys))"
proof -
  from partial_schema_keys obtain shape where
    shape: "partial ExtractedDataSchema = ZObject shape" "fst ` set shape = set declared_keys"
    by blast
  have root: "zparse (partial ExtractedDataSchema) [] (JObj kvs) =
     zparse (partial ExtractedDataSchema) []
       (JObj (filter (\<lambda>(key, v). key \<in> set declared_keys) kvs))"
    using zparse_object_strip [of shape "[]" kvs] shape by simp
  have every: "zparse (partial ExtractedDataSchema) [] parsed =
     zparse (partial ExtractedDataSchema) [] (strip (partial ExtractedDataSchema) parsed)"
    using zparse_strip [OF distinct_keys_partial_schema, of "[]" parsed] by simp
  have valid: "declared_only (partial ExtractedDataSchema) r"
    if "zparse (partial ExtractedDataSchema) [] v = Inr r" for v r
    using that by (rule zparse_declared_only)
  have batch: "declared_only (partial ExtractedDataSchema) r"
    if "extract_batch json_parse vision i count b = Inr r" for i b r
  proof -
    from that obtain v where "zparse (partial ExtractedDataSchema) [] v = Inr r"
      by (auto simp: extract_batch_def split: sum.splits)
    then show ?thesis by (rule valid)
  qed
  have merged: "key \<in> set item_keys"
    if results: "candidates json_parse vision count idx batches = Inr results"
      and m: "process_batches json_parse vision count idx batches initial_merged = Inr m"
      and item: "item \<in> set (lineItems m)" and key: "has_key item key" for item key
  proof -
    from process_batches_results [OF results, of initial_merged] m
    have seq: "m = merge_sequence initial_merged (zip results (map length batches))"
      and fst: "map fst (zip results (map length batches)) = results"
      by simp_all
    have "lineItems m =
        concat (map line_items_of (map fst (zip results (map length batches))))"
      by (simp add: seq lineItems_merge_sequence initial_merged_def)
    then have "lineItems m = concat (map line_items_of results)"
      by (simp only: fst)
    with item obtain r where r: "r \<in> set results" and mem: "item \<in> set (line_items_of r)"
      by auto
    from candidates_member [OF results r] obtain i b where
      "extract_batch json_parse vision i count b = Inr r" by blast
    from declared_only_partial_schema [OF batch [OF this]] mem key show ?thesis
      by blast
  qed
  from root every valid batch merged declared_only_partial_schema show ?thesis
    by (intro conjI impI allI ballI) blast+
qed

text \<open>
  The second answer of the sample request has the keys \<^verbatim>\<open>confidence\<close>, \<^verbatim>\<open>sku\<close> (in its
  first line item) and \<^verbatim>\<open>model\<close> (under \<^verbatim>\<open>meta\<close>); the validated result of its batch
  has none of them, nor has the line item in the merged record.
\<close>

theorem unknown_keys_stripped_witness:
  "sample_json_parse second_answer = Some second_parsed \<and>
   has_key second_parsed ''confidence'' \<and>
   has_key (line_items_of second_parsed ! 0) ''sku'' \<and>
   has_key (get second_parsed ''meta'') ''model'' \<and>
   ''confidence'' \<notin> set declared_keys \<and>
   ''sku'' \<notin> set item_keys \<and>
   strip (partial ExtractedDataSchema) second_parsed = second_result \<and>
   zparse (partial ExtractedDataSchema) [] second_parsed = Inr second_result \<and>
   extract_batch sample_json_parse sample_vision 1 2 [17] = Inr second_result \<and>
   \<not> has_key second_result ''confidence'' \<and>
   \<not> has_key (line_items_of second_result ! 0) ''sku'' \<and>
   \<not> has_key (get second_result ''meta'') ''model'' \<and>
   candidates sample_json_parse sample_vision 2 0 [[11, 12, 13, 14, 15, 16], [17]] =
     Inr [first_parsed, second_result] \<and>
   process_batches sample_json_parse sample_vision 2 0 [[11, 12, 13, 14, 15, 16], [17]]
     initial_merged = Inr sample_merged \<and>
   \<not> has_key (lineItems sample_merged ! 1) ''sku''"
proof -
  let ?batches = "[[11, 12, 13, 14, 15, 16], [17 :: nat]]"
  note one = unknown_keys_stripped [of _ second_parsed second_result sample_json_parse
      sample_vision 1 2 "[17]"]
  note all = unknown_keys_stripped [of _ _ _ sample_json_parse sample_vision 0 2 _ ?batches
      "[first_parsed, second_result]" sample_merged]
  have table: "sample_json_parse second_answer = Some second_parsed"
    by (simp add: sample_json_parse_def first_answer_def second_answer_def)
  have carried: "has_key second_parsed ''confidence''"
    "has_key (line_items_of second_parsed ! 0) ''sku''"
    "has_key (get second_parsed ''meta'') ''model''"
    by (simp_all add: second_parsed_def line_items_of_def)
  have undeclared: "''confidence'' \<notin> set declared_keys" "''sku'' \<notin> set item_keys"
    by (simp_all add: declared_keys_def item_keys_def)
  have stripped: "strip (partial ExtractedDataSchema) second_parsed = second_result"
    by (simp add: shape_partial_schema second_parsed_def second_result_def)
  have "zparse (partial ExtractedDataSchema) [] second_result = Inr second_result"
    by (simp add: shape_partial_schema second_result_def)
  with one [THEN conjunct2, THEN conjunct1]
  have valid: "zparse (partial ExtractedDataSchema) [] second_parsed = Inr second_result"
    by (simp only: stripped)
  have batch: "extract_batch sample_json_parse sample_vision 1 2 [17] = Inr second_result"
    using sample_second [of 0 2 "[17]"] by simp
  note keys = one [THEN conjunct2, THEN conjunct2, THEN conjunct2, THEN conjunct1, THEN mp,
      OF batch]
  have root: "\<not> has_key second_result ''confidence''"
    using keys [THEN conjunct1] undeclared(1) by blast
  have "line_items_of second_result ! 0 \<in> set (line_items_of second_result)"
    by (simp add: second_result_def line_items_of_def)
  with keys [THEN conjunct2, THEN conjunct2, THEN conjunct1] undeclared(2)
  have item: "\<not> has_key (line_items_of second_result ! 0) ''sku''"
    by blast
  have meta: "\<not> has_key (get second_result ''meta'') ''model''"
    using keys [THEN conjunct2, THEN conjunct2, THEN conjunct2] by auto
  have results: "candidates sample_json_parse sample_vision 2 0 ?batches =
      Inr [first_parsed, second_result]"
    by (rule sample_candidates)
  have loop: "process_batches sample_json_parse sample_vision 2 0 ?batches initial_merged =
      Inr sample_merged"
    by (rule sample_loop)
  have "lineItems sample_merged ! 1 \<in> set (lineItems sample_merged)"
    by (simp add: sample_merged_def)
  with all [THEN conjunct2, THEN conjunct2, THEN conjunct2, THEN conjunct2, THEN mp,
      OF conjI [OF results loop]] undeclared(2)
  have merged: "\<not> has_key (lineItems sample_merged ! 1) ''sku''"
    by blast
  from table carried undeclared stripped valid batch root item meta results loop merged
  show ?thesis
    by (intro conjI)
qed

section \<open>Null scalar fields\<close>

text \<open>
  A scalar field of the partial schema passes exactly when it is a string or absent.
\<close>

lemma optional_string_accepts:
  "(\<exists>r. zparse (ZOptional (ZOptional ZString)) p v = Inr r) \<longleftrightarrow>
   (getParsedType v = TString \<or> getParsedType v = TUndefined)"
  by auto

lemma null_answer:
  "sample_json_parse ''{\"vendor\":null}'' = Some (JObj [(''vendor'', JNull)])"
  by (simp add: sample_json_parse_def first_answer_def second_answer_def)

text \<open>
  Claim C2 does not hold of the code: a scalar field that is \<^verbatim>\<open>null\<close>, which is what
  the prompt of lines 145 to 159 asks the model to write for a missing field, fails the
  validation of the batch, since \<^verbatim>\<open>z.string().optional()\<close> admits a string or
  \<^verbatim>\<open>undefined\<close> only. The answer \<^verbatim>\<open>{"vendor":null}\<close> aborts the request.
\<close>

theorem null_scalar_rejected:
  "zparse (partial ExtractedDataSchema) [] (JObj [(''vendor'', JNull)]) =
     Inl [invalid_type [Key ''vendor''] TString TNull] \<and>
   extract_handler sample_json_parse sample_render (constant_vision ''{\"vendor\":null}'')
     (Some ()) = Failure (ZodError [invalid_type [Key ''vendor''] TString TNull])"
proof -
  have v: "zparse (partial ExtractedDataSchema) [] (JObj [(''vendor'', JNull)]) =
     Inl [invalid_type [Key ''vendor''] TString TNull]"
    by (simp add: shape_partial_schema)
  then have "extract_batch sample_json_parse (constant_vision ''{\"vendor\":null}'') 0 count
      batch = Inl (ZodError [invalid_type [Key ''vendor''] TString TNull])" for count batch
    by (simp add: extract_batch_def constant_vision_def parse_content_def null_answer)
  then have "extract_handler sample_json_parse sample_render
      (constant_vision ''{\"vendor\":null}'') (Some ()) =
      Failure (ZodError [invalid_type [Key ''vendor''] TString TNull])"
    by (simp add: extract_handler_def extract_pages_def sample_render_def sample_batches)
  with v show ?thesis by simp
qed

section \<open>The final validation\<close>

text \<open>
  The final validation of line 233 uses the schema of the batches, so it passes only
  when no scalar field of the merged record is null.
\<close>

lemma merged_value_get:
  "key \<in> set scalar_keys \<Longrightarrow> get (merged_value m) key = merged_get m key"
  by (auto simp: scalar_keys_def merged_value_def merged_get_def)

lemma scalar_key_schema:
  "key \<in> set scalar_keys \<Longrightarrow>
   ExtractedDataSchema = ZObject shape \<Longrightarrow> (key, ZOptional ZString) \<in> set shape"
  by (auto simp: scalar_keys_def ExtractedDataSchema_def)

lemma final_validation_needs_strings:
  assumes key: "key \<in> set scalar_keys"
    and ok: "zparse ExtractedDataSchema [] (merged_value m) = Inr final"
  shows "getParsedType (merged_get m key) = TString \<or>
         getParsedType (merged_get m key) = TUndefined"
proof -
  obtain shape where shape: "ExtractedDataSchema = ZObject shape"
    by (simp add: ExtractedDataSchema_def)
  have d: "distinct (map fst shape)"
    using shape by (auto simp: ExtractedDataSchema_def)
  from ok have "zparse (ZObject shape) [] (merged_value m) = Inr final"
    by (simp only: shape)
  from zparse_object_field [OF this d scalar_key_schema [OF key shape]]
  have "zparse (ZOptional ZString) ([] @ [Key key]) (merged_get m key) = Inr (get final key)"
    by (simp only: merged_value_get [OF key])
  then show ?thesis
    by (auto split: if_splits)
qed

lemma null_field_fails_final:
  assumes "key \<in> set scalar_keys" and "merged_get m key = JNull"
  shows "\<exists>issues. zparse ExtractedDataSchema [] (merged_value m) = Inl issues"
proof (cases "zparse ExtractedDataSchema [] (merged_value m)")
  case (Inl issues)
  then show ?thesis by blast
next
  case (Inr final)
  from final_validation_needs_strings [OF assms(1) Inr] assms(2) show ?thesis
    by simp
qed

lemma acme_answer:
  "sample_json_parse ''{\"vendor\":\"Acme\"}'' = Some (JObj [(''vendor'', JStr ''Acme'')])"
  by (simp add: sample_json_parse_def first_answer_def second_answer_def)

lemma acme_batch:
  "extract_batch sample_json_parse (constant_vision ''{\"vendor\":\"Acme\"}'') idx count batch =
     Inr (JObj [(''vendor'', JStr ''Acme'')])"
  by (simp add: extract_batch_def constant_vision_def parse_content_def acme_answer
      shape_partial_schema)

lemma acme_loop:
  "process_batches sample_json_parse (constant_vision ''{\"vendor\":\"Acme\"}'') count 0
     [[11, 12, 13, 14, 15, 16], [17]] initial_merged =
   Inr \<lparr> documentType = JNull, invoiceNumber = JNull, date = JNull,
         vendor = JStr ''Acme'', buyer = JNull, total_field = JNull, currency = JNull,
         lineItems = [], meta = \<lparr> pagesProcessed = 7 \<rparr> \<rparr>"
  by (simp add: acme_batch merge_batch_def merge_key_def merged_get_def
      merged_set_def scalar_keys_def initial_merged_def eq_null_def)

text \<open>
  Claim C3 does not hold of the code. On the sample request with a model that answers
  each batch with \<^verbatim>\<open>{"vendor":"Acme"}\<close>, the validation of both batches succeeds, six
  scalar fields of the merged record stay null, and the final validation fails: the
  handler answers with the failure, not with the success.
\<close>

theorem null_fields_fail_final_validation:
  "candidates sample_json_parse (constant_vision ''{\"vendor\":\"Acme\"}'') 2 0
     [[11, 12, 13, 14, 15, 16], [17]] =
     Inr [JObj [(''vendor'', JStr ''Acme'')], JObj [(''vendor'', JStr ''Acme'')]] \<and>
   extract_handler sample_json_parse sample_render (constant_vision ''{\"vendor\":\"Acme\"}'')
     (Some ()) =
     Failure (ZodError
       [invalid_type [Key ''documentType''] TString TNull,
        invalid_type [Key ''invoiceNumber''] TString TNull,
        invalid_type [Key ''date''] TString TNull,
        invalid_type [Key ''buyer''] TString TNull,
        invalid_type [Key ''total''] TString TNull,
        invalid_type [Key ''currency''] TString TNull])"
proof -
  have "candidates sample_json_parse (constant_vision ''{\"vendor\":\"Acme\"}'') 2 0
     [[11, 12, 13, 14, 15, 16], [17]] =
     Inr [JObj [(''vendor'', JStr ''Acme'')], JObj [(''vendor'', JStr ''Acme'')]]"
    by (simp add: acme_batch)
  moreover have "extract_handler sample_json_parse sample_render
     (constant_vision ''{\"vendor\":\"Acme\"}'') (Some ()) =
     Failure (ZodError
       [invalid_type [Key ''documentType''] TString TNull,
        invalid_type [Key ''invoiceNumber''] TString TNull,
        invalid_type [Key ''date''] TString TNull,
        invalid_type [Key ''buyer''] TString TNull,
        invalid_type [Key ''total''] TString TNull,
        invalid_type [Key ''currency''] TString TNull])"
    by (simp add: extract_handler_def extract_pages_def sample_render_def sample_batches
        acme_loop merged_value_def ExtractedDataSchema_def del: process_batches.simps)
  ultimately show ?thesis
    by (intro conjI)
qed

end
